theory Spec2Isabelle
  imports Complex_Main
begin

unbundle bit_operations_syntax

section \<open>The factorial analysis of variance of \<open>Lib/stats/stats.py\<close>\<close>

text \<open>
  The development embeds the parts of \<open>anova\<close> and of its helpers that the
  properties below are about.
  \<^item> Python's unbounded integers are \<open>int\<close>; bit positions and counts are \<open>nat\<close>.
    A source is a bit mask: bit 0 is the subject column, bit \<open>j\<close> the factor in column
    \<open>j\<close> of the data. Masks are read with \<open>AND\<close>, \<open>NOT\<close> and \<open>bit\<close>.
  \<^item> An exception is a value \<open>Inl e\<close> of a sum type; a function that can raise returns
    \<open>error + 'a\<close>.
  \<^item> A floating-point number is idealised as a \<open>real\<close>; a division whose divisor is
    zero is the error \<open>ZeroDivisionError\<close>, never HOL's \<open>x / 0 = 0\<close>.
  \<^item> \<open>findwithin\<close> returns the classification of the factors as a list of flags;
    the main loop of \<open>anova\<close> reads the classification as a bit mask \<open>Bwithins\<close>
    over the data columns (bit \<open>j\<close> set: the factor in column \<open>j\<close> is
    within-subjects). The embedding of the main loop takes that mask as an argument.
  \<^item> \<open>anova\<close> calls \<open>Dfull_model\<close>, \<open>Drestrict_mean\<close>, \<open>Drestrict_source\<close>
    and \<open>multivar_SScalc\<close>; the embedding links each call to the function of the module
    with that name in lower case (\<open>d_full_model\<close>, \<open>d_restrict_mean\<close>,
    \<open>d_restrict_source\<close>, \<open>multivar_sscalc\<close>).
\<close>

subsection \<open>Bit masks and lists of columns\<close>

text \<open>
  \<^verbatim>\<open>def subset (a,b): return (a&b)==a\<close>
\<close>

definition subset_py :: "int \<Rightarrow> int \<Rightarrow> bool" where
  "subset_py a b \<longleftrightarrow> a AND b = a"

text \<open>
  \<^verbatim>\<open>def propersubset (a,b):
     sub = ((a&b)==a)
     if a==b: sub = 0
     return sub\<close>
\<close>

definition propersubset :: "int \<Rightarrow> int \<Rightarrow> bool" where
  "propersubset a b \<longleftrightarrow> (if a = b then False else a AND b = a)"

text \<open>
  \<^verbatim>\<open>def makebin(sourcelist):
     outbin = 0
     for item in sourcelist:
         outbin = outbin + 2**item
     return outbin\<close>
\<close>

definition makebin :: "nat list \<Rightarrow> int" where
  "makebin sourcelist = foldl (\<lambda>outbin item. outbin + 2 ^ item) 0 sourcelist"

text \<open>
  \<^verbatim>\<open>def makelist(source,ncols):
     levellist = []
     for j in range(ncols):
         if subset(1<<j,source):
             levellist.append(j)
     return levellist\<close>
\<close>

definition makelist :: "int \<Rightarrow> nat \<Rightarrow> nat list" where
  "makelist source ncols =
     foldl (\<lambda>levellist j. if subset_py (push_bit j 1) source then levellist @ [j] else levellist)
       [] [0..<ncols]"

subsection \<open>Exceptions, indexing and ranges\<close>

text \<open>
  The exceptions that the embedded code can raise. \<open>IndexError\<close> carries its message,
  which tells the interpreter's own error from the one \<open>anova\<close> raises for a
  within-subjects factor of more than ten levels.
\<close>

datatype error = ValueError | IndexError string | ZeroDivisionError | TypeError

text \<open>Python's \<open>xs[i]\<close>: a negative index counts from the end.\<close>

definition getitem :: "'b list \<Rightarrow> int \<Rightarrow> error + 'b" where
  "getitem xs i =
     (if 0 \<le> i \<and> i < int (length xs) then Inr (xs ! nat i)
      else if i < 0 \<and> - int (length xs) \<le> i then Inr (xs ! nat (int (length xs) + i))
      else Inl (IndexError ''list index out of range''))"

text \<open>Python's \<open>xs.index(x)\<close>: the first position of \<open>x\<close>, or \<open>ValueError\<close>.\<close>

fun index_py :: "'b list \<Rightarrow> 'b \<Rightarrow> error + nat" where
  "index_py [] x = Inl ValueError"
| "index_py (y # ys) x =
     (if y = x then Inr 0
      else (case index_py ys x of Inl e \<Rightarrow> Inl e | Inr i \<Rightarrow> Inr (Suc i)))"

text \<open>
  \<open>map\<close> and \<open>filter\<close> with a function that can raise: the first exception ends
  the traversal.
\<close>

fun map_err :: "('b \<Rightarrow> error + 'c) \<Rightarrow> 'b list \<Rightarrow> error + 'c list" where
  "map_err f [] = Inr []"
| "map_err f (x # xs) =
     (case f x of
        Inl e \<Rightarrow> Inl e
      | Inr y \<Rightarrow> (case map_err f xs of Inl e \<Rightarrow> Inl e | Inr ys \<Rightarrow> Inr (y # ys)))"

fun filter_err :: "('b \<Rightarrow> error + bool) \<Rightarrow> 'b list \<Rightarrow> error + 'b list" where
  "filter_err f [] = Inr []"
| "filter_err f (x # xs) =
     (case f x of
        Inl e \<Rightarrow> Inl e
      | Inr b \<Rightarrow>
          (case filter_err f xs of
             Inl e \<Rightarrow> Inl e
           | Inr ys \<Rightarrow> Inr (if b then x # ys else ys)))"

text \<open>Python's \<open>range(start, stop, step)\<close> for a positive step.\<close>

function range_py :: "int \<Rightarrow> int \<Rightarrow> int \<Rightarrow> int list" where
  "range_py start stop step =
     (if 0 < step \<and> start < stop then start # range_py (start + step) stop step else [])"
  by pat_completeness auto
termination
  by (relation "measure (\<lambda>(start, stop, step). nat (stop - start))") auto

subsection \<open>The design classifier\<close>

text \<open>
  A row of the data is a list of cells: the subject, one level per factor, the measured
  value. \<open>findwithin\<close> only compares cells, so the type of a cell is left open.
\<close>

text \<open>
  Modelled from the spec: \<open>pstat.unique\<close> (the module \<open>pstat\<close> is not among the
  sources), the distinct items of a list in the order of their first occurrence.
\<close>

definition unique :: "'b list \<Rightarrow> 'b list" where
  "unique inlist =
     foldl (\<lambda>uniques item. if item \<in> set uniques then uniques else uniques @ [item]) [] inlist"

text \<open>
  Modelled from the spec: \<open>pstat.colex\<close> (the module \<open>pstat\<close> is not among the
  sources), the column \<open>cnum\<close> of a list of rows.
\<close>

definition colex :: "'b list list \<Rightarrow> int \<Rightarrow> error + 'b list" where
  "colex listoflists cnum = map_err (\<lambda>x. getitem x cnum) listoflists"

text \<open>
  Modelled from the spec: \<open>pstat.linexand\<close> (the module \<open>pstat\<close> is not among the
  sources), the rows whose cell in the given column equals the given value.
\<close>

definition linexand :: "'b list list \<Rightarrow> int \<Rightarrow> 'b \<Rightarrow> error + 'b list list" where
  "linexand listoflists column val =
     filter_err (\<lambda>x. case getitem x column of Inl e \<Rightarrow> Inl e | Inr v \<Rightarrow> Inr (v = val))
       listoflists"

text \<open>
  \<^verbatim>\<open>def findwithin(data):
    numfact = len(data[0])-2
    withinvec = [0]*numfact
    for col in range(1,numfact+1):
        rows = pstat.linexand(data,col,pstat.unique(pstat.colex(data,1))[0])
        if len(pstat.unique(pstat.colex(rows,0))) < len(rows):
            withinvec[col-1] = 1
    return withinvec\<close>
  The body of the loop is \<open>findwithin_col\<close>: the flag of the factor in column
  \<open>col\<close>.
\<close>

definition findwithin_col :: "'b list list \<Rightarrow> int \<Rightarrow> error + int" where
  "findwithin_col data col =
     (case colex data 1 of
        Inl e \<Rightarrow> Inl e
      | Inr column1 \<Rightarrow>
     (case getitem (unique column1) 0 of
        Inl e \<Rightarrow> Inl e
      | Inr level \<Rightarrow>
     (case linexand data col level of
        Inl e \<Rightarrow> Inl e
      | Inr rows \<Rightarrow>
     (case colex rows 0 of
        Inl e \<Rightarrow> Inl e
      | Inr subjects \<Rightarrow>
          Inr (if length (unique subjects) < length rows then 1 else 0)))))"

definition findwithin :: "'b list list \<Rightarrow> error + int list" where
  "findwithin data =
     (case getitem data 0 of
        Inl e \<Rightarrow> Inl e
      | Inr row0 \<Rightarrow>
          (let numfact = int (length row0) - 2
           in map_err (findwithin_col data) (map int [1..<nat (numfact + 1)])))"

text \<open>
  The classification in the words of the specification: a factor is within-subjects if
  and only if, with one level \<open>level\<close> of another factor, the reference factor in
  column \<open>ref\<close>, held fixed, the rows at that level hold fewer distinct subjects than
  rows, that is, the same subject recurs across the levels of the factor.
\<close>

definition spec_is_within :: "'b list list \<Rightarrow> nat \<Rightarrow> 'b \<Rightarrow> bool" where
  "spec_is_within data ref level =
     (card ((\<lambda>row. row ! 0) ` {row \<in> set data. row ! ref = level})
        < length (filter (\<lambda>row. row ! ref = level) data))"

subsection \<open>The enumeration of the sources\<close>

text \<open>
  \<^verbatim>\<open>Nallsources = 2**(Nfactors+1)
    ...
    for source in range(3,Nallsources,2): # all sources that incl. subjects\<close>
\<close>

definition Nallsources :: "nat \<Rightarrow> int" where
  "Nallsources Nfactors = 2 ^ (Nfactors + 1)"

definition sources :: "nat \<Rightarrow> int list" where
  "sources Nfactors = range_py 3 (Nallsources Nfactors) 2"

text \<open>
  The branch of the loop body that computes the sum of squares of a source:
  \<^verbatim>\<open>if ((source-1) & Bwithins) == 0:  # btw-subjects vars only?
            ...
        else:  # Source has some w/i subj factors
            ...
            if subset((source-1),Bwithins):
                er = Drestrict_mean(workD,subjslots)
            else:
                er = Drestrict_source(workD,subjslots,source) + ef\<close>
\<close>

datatype kind = PureBetween | PureWithin | MixedSource

definition source_kind :: "int \<Rightarrow> int \<Rightarrow> kind" where
  "source_kind Bwithins source =
     (if (source - 1) AND Bwithins = 0 then PureBetween
      else if subset_py (source - 1) Bwithins then PureWithin
      else MixedSource)"

subsection \<open>The memo of the effects\<close>

text \<open>
  The module-level lists that the loop fills: \<open>alleffects\<close> and \<open>alleffsources\<close>
  hold the effects computed so far and their sources, \<open>Bwsources\<close> the sources with a
  within-subjects factor, \<open>Bwonly_sources\<close> the sources of within-subjects factors
  only (each without its subject bit). The arrays of cell means are values of a type
  \<open>'a\<close> with addition and subtraction; the array of cell means of a source and its
  grand average are given by the functions \<open>sourceMarray\<close> and \<open>ga\<close>.
\<close>

record 'a globals =
  alleffects :: "'a list"
  alleffsources :: "int list"
  Bwsources :: "int list"
  Bwonly_sources :: "int list"

text \<open>\<^verbatim>\<open>alleffects[alleffsources.index(subsource)]\<close>\<close>

definition lookup_effect :: "'a globals \<Rightarrow> int \<Rightarrow> error + 'a" where
  "lookup_effect g subsource =
     (case index_py (alleffsources g) subsource of
        Inl e \<Rightarrow> Inl e
      | Inr i \<Rightarrow> getitem (alleffects g) (int i))"

text \<open>
  The between-subjects path of \<open>anova\<close>:
  \<^verbatim>\<open>sub_effects = 1.0 * ga # start with grand mean
            for subsource in range(3,source,2):
                if subset(subsource-1,source-1):
                    sub_effects = (sub_effects +
                                   alleffects[alleffsources.index(subsource)])
            effect = sourceMarray - sub_effects
            alleffects.append(effect)
            alleffsources.append(source)\<close>
\<close>

fun sub_effects_between :: "'a::plus globals \<Rightarrow> int \<Rightarrow> 'a \<Rightarrow> int list \<Rightarrow> error + 'a" where
  "sub_effects_between g source sub_effects [] = Inr sub_effects"
| "sub_effects_between g source sub_effects (subsource # rest) =
     (if subset_py (subsource - 1) (source - 1) then
        (case lookup_effect g subsource of
           Inl e \<Rightarrow> Inl e
         | Inr eff \<Rightarrow> sub_effects_between g source (sub_effects + eff) rest)
      else sub_effects_between g source sub_effects rest)"

text \<open>
  The path of \<open>d_restrict_source\<close>:
  \<^verbatim>\<open>dindex = Bwonly_sources.index(sourcewithins)
         ...
         sub_effects = ga *1.0   # start with grand mean
         for subsource in range(3,source-2,2):
             subsourcebtw = (subsource-1) & Bbetweens
             if (propersubset(subsource-1,source-1) and
                 (subsource-1)&Bwithins == (source-1)&Bwithins and
                 (subsource-1) <> (source-1)&Bwithins):
                 sub_effects = (sub_effects +
                                alleffects[alleffsources.index(subsource)])
         effect = sourceDMarray - sub_effects
         alleffects.append(effect)
         alleffsources.append(source)\<close>
\<close>

fun sub_effects_mixed ::
  "int \<Rightarrow> 'a::plus globals \<Rightarrow> int \<Rightarrow> 'a \<Rightarrow> int list \<Rightarrow> error + 'a" where
  "sub_effects_mixed Bwithins g source sub_effects [] = Inr sub_effects"
| "sub_effects_mixed Bwithins g source sub_effects (subsource # rest) =
     (if propersubset (subsource - 1) (source - 1) \<and>
         (subsource - 1) AND Bwithins = (source - 1) AND Bwithins \<and>
         subsource - 1 \<noteq> (source - 1) AND Bwithins then
        (case lookup_effect g subsource of
           Inl e \<Rightarrow> Inl e
         | Inr eff \<Rightarrow> sub_effects_mixed Bwithins g source (sub_effects + eff) rest)
      else sub_effects_mixed Bwithins g source sub_effects rest)"

definition d_restrict_source_memo ::
  "int \<Rightarrow> (int \<Rightarrow> 'a) \<Rightarrow> (int \<Rightarrow> 'a) \<Rightarrow> 'a::{plus,minus} globals \<Rightarrow> int \<Rightarrow> error + 'a globals" where
  "d_restrict_source_memo Bwithins sourceMarray ga g source =
     (case index_py (Bwonly_sources g) ((source - 1) AND Bwithins) of
        Inl e \<Rightarrow> Inl e
      | Inr dindex \<Rightarrow>
          (case sub_effects_mixed Bwithins g source (ga source) (range_py 3 (source - 2) 2) of
             Inl e \<Rightarrow> Inl e
           | Inr sub_effects \<Rightarrow>
               Inr (g\<lparr>alleffects := alleffects g @ [sourceMarray source - sub_effects],
                      alleffsources := alleffsources g @ [source]\<rparr>)))"

text \<open>
  One pass of the main loop, as far as it touches the four lists:
  \<^verbatim>\<open>if ((source-1) & Bwithins) != 0: # 1 or more w/i subj sources?
            Bwsources.append(source-1)   # add it to a list
        if subset((source-1),Bwithins):
            dcount = dcount + 1
            Bwonly_sources.append(source-1) #add source, minus subj,to list
            ...\<close>
  then the branch of the source's kind; a source with a within-subjects factor first
  finds its D-variable,
  \<^verbatim>\<open>workD = D[Bwonly_sources.index(sourcewithins)]\<close>
\<close>

definition anova_source ::
  "int \<Rightarrow> (int \<Rightarrow> 'a) \<Rightarrow> (int \<Rightarrow> 'a) \<Rightarrow> 'a::{plus,minus} globals \<Rightarrow> int \<Rightarrow> error + 'a globals" where
  "anova_source Bwithins sourceMarray ga g source =
     (let g1 = (if (source - 1) AND Bwithins \<noteq> 0
                then g\<lparr>Bwsources := Bwsources g @ [source - 1]\<rparr> else g);
          g2 = (if subset_py (source - 1) Bwithins
                then g1\<lparr>Bwonly_sources := Bwonly_sources g1 @ [source - 1]\<rparr> else g1)
      in case source_kind Bwithins source of
           PureBetween \<Rightarrow>
             (case sub_effects_between g2 source (ga source) (range_py 3 source 2) of
                Inl e \<Rightarrow> Inl e
              | Inr sub_effects \<Rightarrow>
                  Inr (g2\<lparr>alleffects := alleffects g2 @ [sourceMarray source - sub_effects],
                          alleffsources := alleffsources g2 @ [source]\<rparr>))
         | PureWithin \<Rightarrow>
             (case index_py (Bwonly_sources g2) ((source - 1) AND Bwithins) of
                Inl e \<Rightarrow> Inl e
              | Inr dindex \<Rightarrow> Inr g2)
         | MixedSource \<Rightarrow>
             (case index_py (Bwonly_sources g2) ((source - 1) AND Bwithins) of
                Inl e \<Rightarrow> Inl e
              | Inr dindex \<Rightarrow> d_restrict_source_memo Bwithins sourceMarray ga g2 source))"

fun anova_loop ::
  "int \<Rightarrow> (int \<Rightarrow> 'a) \<Rightarrow> (int \<Rightarrow> 'a) \<Rightarrow> 'a::{plus,minus} globals \<Rightarrow> int list \<Rightarrow> error + 'a globals" where
  "anova_loop Bwithins sourceMarray ga g [] = Inr g"
| "anova_loop Bwithins sourceMarray ga g (source # rest) =
     (case anova_source Bwithins sourceMarray ga g source of
        Inl e \<Rightarrow> Inl e
      | Inr g' \<Rightarrow> anova_loop Bwithins sourceMarray ga g' rest)"

text \<open>The loop over all sources, from the empty lists that \<open>anova\<close> starts with.\<close>

definition anova_memo ::
  "nat \<Rightarrow> int \<Rightarrow> (int \<Rightarrow> 'a) \<Rightarrow> (int \<Rightarrow> 'a) \<Rightarrow> error + 'a::{plus,minus} globals" where
  "anova_memo Nfactors Bwithins sourceMarray ga =
     anova_loop Bwithins sourceMarray ga
       \<lparr>alleffects = [], alleffsources = [], Bwsources = [], Bwonly_sources = []\<rparr>
       (sources Nfactors)"

text \<open>
  The state of the lists after the sources \<open>done\<close>: the memo holds the sources that
  are not of within-subjects factors only, in the order of the loop.
\<close>

definition memo_inv :: "int \<Rightarrow> int list \<Rightarrow> 'a globals \<Rightarrow> bool" where
  "memo_inv W done g \<longleftrightarrow>
     alleffsources g = filter (\<lambda>s. source_kind W s \<noteq> PureWithin) done \<and>
     length (alleffects g) = length (alleffsources g) \<and>
     Bwonly_sources g = map (\<lambda>s. s - 1) (filter (\<lambda>s. subset_py (s - 1) W) done)"

subsection \<open>The contrast coefficients of the D-variables\<close>






subsection \<open>Degrees of freedom and the F statistic\<close>

text \<open>Sequencing of computations that can raise.\<close>

definition bind_err :: "error + 'b \<Rightarrow> ('b \<Rightarrow> error + 'c) \<Rightarrow> error + 'c" where
  "bind_err m f = (case m of Inl e \<Rightarrow> Inl e | Inr x \<Rightarrow> f x)"

text \<open>
  Division of floating-point numbers, \<open>math.sqrt\<close> and \<open>math.pow\<close>: Python raises
  for a zero divisor, for the square root of a negative number, for a negative base with
  an exponent that is not an integer, and for a zero base with a negative exponent.
\<close>

definition py_div :: "real \<Rightarrow> real \<Rightarrow> error + real" where
  "py_div a b = (if b = 0 then Inl ZeroDivisionError else Inr (a / b))"

definition py_sqrt :: "real \<Rightarrow> error + real" where
  "py_sqrt x = (if x < 0 then Inl ValueError else Inr (sqrt x))"

definition py_pow :: "real \<Rightarrow> real \<Rightarrow> error + real" where
  "py_pow x y =
     (if 0 < x then Inr (x powr y)
      else if x = 0 then (if y < 0 then Inl ValueError else if y = 0 then Inr 1 else Inr 0)
      else if y \<in> \<int> then Inr (x powi \<lfloor>y\<rfloor>)
      else Inl ValueError)"

text \<open>
  The quantities that \<open>anova\<close> derives from the numbers of levels before its main loop.
  \<open>Nlevels\<close> holds the number of distinct cells of each column but the last: of the
  subjects in column 0, of the levels of the factor in column \<open>j\<close> otherwise.
  \<^verbatim>\<open>Nfactors = len(Nlevels[1:])             # total num factors
    Nallsources = 2**(Nfactors+1)
    Nsubjects = len(alluniqueslist[0])
    Bbetweens = ~Bwithins & (Nallsources-1) - 1
    Bscols = makelist(Bbetweens+1,Nfactors+1) #list of btw-subj cols,INCL col 0\<close>
\<close>

definition Nfactors :: "int list \<Rightarrow> nat" where
  "Nfactors Nlevels = length (tl Nlevels)"

definition Nsubjects :: "int list \<Rightarrow> error + int" where
  "Nsubjects Nlevels = getitem Nlevels 0"

definition Bbetweens :: "int list \<Rightarrow> int \<Rightarrow> int" where
  "Bbetweens Nlevels Bwithins = NOT Bwithins AND (Nallsources (Nfactors Nlevels) - 1 - 1)"

definition Bscols :: "int list \<Rightarrow> int \<Rightarrow> nat list" where
  "Bscols Nlevels Bwithins = makelist (Bbetweens Nlevels Bwithins + 1) (Nfactors Nlevels + 1)"

text \<open>
  \<open>pstat.colex([Nlevels], cols)\<close>: the entries of \<open>Nlevels\<close> at the columns \<open>cols\<close>.
\<close>

definition take_levels :: "int list \<Rightarrow> nat list \<Rightarrow> error + int list" where
  "take_levels Nlevels cols = map_err (\<lambda>c. getitem Nlevels (int c)) cols"

text \<open>
  \<^verbatim>\<open>if Bscols[1:] <> []:
            BNs = pstat.colex([Nlevels],Bscols[1:])
        else:
            BNs = [1]\<close>
\<close>

definition BNs :: "int list \<Rightarrow> int \<Rightarrow> error + int list" where
  "BNs Nlevels Bwithins =
     (if tl (Bscols Nlevels Bwithins) \<noteq> [] then take_levels Nlevels (tl (Bscols Nlevels Bwithins))
      else Inr [1])"

text \<open>
  What the loop keeps of a source: the two rows that it appends to \<open>outputlist\<close>, before
  rounding. \<open>r_MS\<close> and \<open>r_MSw\<close> are the mean squares of these rows,
  \<open>SS/float(dfnum)\<close> and \<open>SSw/float(dfden)\<close>.
\<close>

record result =
  r_SS :: real
  r_dfnum :: int
  r_MS :: real
  r_F :: real
  r_prob :: real
  r_SSw :: real
  r_dfden :: real
  r_MSw :: real

text \<open>
  \<^verbatim>\<open>outputlist = (outputlist
                      + [[thiseffect, round4(SS),dfnum,
                          round4(SS/float(dfnum)),round4(f),
                          round4(prob),suffix]]
                      + [[thiseffect+'/w', round4(SSw),dfden,
                          round4(SSw/float(dfden)),'','','']]
                      + [['\n']])\<close>
\<close>

definition output_rows :: "real \<Rightarrow> int \<Rightarrow> real \<Rightarrow> real \<Rightarrow> real \<Rightarrow> real \<Rightarrow> error + result" where
  "output_rows SS dfnum f prob SSw dfden =
     bind_err (py_div SS (real_of_int dfnum)) (\<lambda>ms.
     bind_err (py_div SSw dfden) (\<lambda>msw.
     Inr \<lparr>r_SS = SS, r_dfnum = dfnum, r_MS = ms, r_F = f, r_prob = prob,
          r_SSw = SSw, r_dfden = dfden, r_MSw = msw\<rparr>))"

text \<open>
  The F statistic of a source of one kind of factors only; \<open>fprob\<close> is the upper tail
  of the F distribution, a function that the module does not define.
  \<^verbatim>\<open>MS = SS / dfnum
            MSw = SSw / dfden
            if MSw <> 0:
                f = MS / MSw
            else:
                f = 0  # i.e., absolutely NO error in the full model

            if f >= 0:
                prob = fprob(dfnum, dfden, f)
            else:
                prob = 1.0\<close>
\<close>

definition f_univariate ::
  "(real \<Rightarrow> real \<Rightarrow> real \<Rightarrow> real) \<Rightarrow> real \<Rightarrow> real \<Rightarrow> int \<Rightarrow> int \<Rightarrow> error + result" where
  "f_univariate fprob SS SSw dfnum dfden =
     bind_err (py_div SS (real_of_int dfnum)) (\<lambda>MS.
     bind_err (py_div SSw (real_of_int dfden)) (\<lambda>MSw.
     bind_err (if MSw \<noteq> 0 then py_div MS MSw else Inr 0) (\<lambda>f.
       let prob = (if f \<ge> 0 then fprob (real_of_int dfnum) (real_of_int dfden) f else 1)
       in output_rows SS dfnum f prob SSw (real_of_int dfden))))"

text \<open>
  A between-subjects source, with its sum of squares \<open>SS\<close> and the error sum of squares
  \<open>SSw\<close>:
  \<^verbatim>\<open>sourceNs = pstat.colex([Nlevels],makelist(source-1,Nfactors+1))
            dfnum = multiply.reduce(ravel(array(sourceNs)-1))
            dfden = Nsubjects - multiply.reduce(ravel(BNs))\<close>
\<close>

definition anova_between ::
  "(real \<Rightarrow> real \<Rightarrow> real \<Rightarrow> real) \<Rightarrow> int list \<Rightarrow> int \<Rightarrow> int \<Rightarrow> real \<Rightarrow> real \<Rightarrow> error + result" where
  "anova_between fprob Nlevels Bwithins source SS SSw =
     bind_err (Nsubjects Nlevels) (\<lambda>nsubjects.
     bind_err (BNs Nlevels Bwithins) (\<lambda>bns.
     bind_err (take_levels Nlevels (makelist (source - 1) (Nfactors Nlevels + 1))) (\<lambda>sourceNs.
       let dfnum = prod_list (map (\<lambda>n. n - 1) sourceNs);
           dfden = nsubjects - prod_list bns
       in f_univariate fprob SS SSw dfnum dfden)))"

text \<open>
  A source with a within-subjects factor, with the determinants of its full-model error
  \<open>ef\<close> and of its restricted-model error \<open>er\<close>:
  \<^verbatim>\<open>SSw = LA.determinant(ef)
            SS = LA.determinant(er) - SSw
            sourceNs = pstat.colex([Nlevels],makelist(source,Nfactors+1))
            dfnum = multiply.reduce(ravel(array(sourceNs)-1)[1:])
            if subset(source-1,Bwithins):
                dfden = Nsubjects -multiply.reduce(ravel(BNs))-dfnum +1
                ...\<close>
  and then as for a between-subjects source.
\<close>

definition anova_within ::
  "(real \<Rightarrow> real \<Rightarrow> real \<Rightarrow> real) \<Rightarrow> int list \<Rightarrow> int \<Rightarrow> int \<Rightarrow> real \<Rightarrow> real \<Rightarrow> error + result" where
  "anova_within fprob Nlevels Bwithins source det_ef det_er =
     bind_err (Nsubjects Nlevels) (\<lambda>nsubjects.
     bind_err (BNs Nlevels Bwithins) (\<lambda>bns.
       let SSw = det_ef;
           SS = det_er - SSw
       in bind_err (take_levels Nlevels (makelist source (Nfactors Nlevels + 1))) (\<lambda>sourceNs.
       let dfnum = prod_list (tl (map (\<lambda>n. n - 1) sourceNs));
           dfden = nsubjects - prod_list bns - dfnum + 1
       in f_univariate fprob SS SSw dfnum dfden)))"

text \<open>
  A source with factors of both kinds; \<open>p\<close> is the number of columns of its D-variable.
  \<^verbatim>\<open>k = multiply.reduce(ravel(BNs))
                m = Nsubjects -1 -(p+k)/2.0
                d_en = float(p**2 + (k-1)**2 - 5)
                if d_en == 0.0:
                    s = 1.0
                else:
                    s = math.sqrt(((p*(k-1))**2-4) / d_en)
                dfden = m*s - dfnum/2.0 + 1

                if LA.determinant(er) <> 0:
                    lmbda = LA.determinant(ef) / LA.determinant(er)
                    W = math.pow(lmbda,(1.0/s))
                    f = ((1.0-W)/W) * (dfden/dfnum)
                else:
                    f = 0  # i.e., absolutely NO error in restricted model

                if f >= 0:
                    prob = fprob(dfnum,dfden,f)
                else:
                    prob = 1.0\<close>
\<close>

definition rao_s :: "int \<Rightarrow> int \<Rightarrow> error + real" where
  "rao_s p k =
     (let d_en = real_of_int (p ^ 2 + (k - 1) ^ 2 - 5)
      in if d_en = 0 then Inr 1
         else bind_err (py_div (real_of_int ((p * (k - 1)) ^ 2 - 4)) d_en) py_sqrt)"

definition anova_mixed ::
  "(real \<Rightarrow> real \<Rightarrow> real \<Rightarrow> real) \<Rightarrow> int list \<Rightarrow> int \<Rightarrow> int \<Rightarrow> int \<Rightarrow> real \<Rightarrow> real \<Rightarrow> error + result" where
  "anova_mixed fprob Nlevels Bwithins source p det_ef det_er =
     bind_err (Nsubjects Nlevels) (\<lambda>nsubjects.
     bind_err (BNs Nlevels Bwithins) (\<lambda>bns.
       let SSw = det_ef;
           SS = det_er - SSw
       in bind_err (take_levels Nlevels (makelist source (Nfactors Nlevels + 1))) (\<lambda>sourceNs.
       let dfnum = prod_list (tl (map (\<lambda>n. n - 1) sourceNs));
           k = prod_list bns;
           m = real_of_int nsubjects - 1 - real_of_int (p + k) / 2
       in bind_err (rao_s p k) (\<lambda>s.
       let dfden = m * s - real_of_int dfnum / 2 + 1
       in bind_err
            (if det_er \<noteq> 0 then
               bind_err (py_div det_ef det_er) (\<lambda>lmbda.
               bind_err (py_div 1 s) (\<lambda>e.
               bind_err (py_pow lmbda e) (\<lambda>W.
               bind_err (py_div (1 - W) W) (\<lambda>q.
               bind_err (py_div dfden (real_of_int dfnum)) (\<lambda>r. Inr (q * r))))))
             else Inr 0) (\<lambda>f.
       let prob = (if f \<ge> 0 then fprob (real_of_int dfnum) dfden f else 1)
       in output_rows SS dfnum f prob SSw dfden)))))"

text \<open>
  The two products in the words of the specification: the product of \<open>levels - 1\<close> over
  the factors of a source, and the product of the numbers of levels of the
  between-subjects factors.
\<close>

definition spec_dfnum :: "int list \<Rightarrow> int \<Rightarrow> int" where
  "spec_dfnum Nlevels source = (\<Prod>j\<leftarrow>filter (bit source) [1..<length Nlevels]. Nlevels ! j - 1)"

definition spec_between_cells :: "int list \<Rightarrow> int \<Rightarrow> int" where
  "spec_between_cells Nlevels Bwithins =
     (\<Prod>j\<leftarrow>filter (\<lambda>j. \<not> bit Bwithins j) [1..<length Nlevels]. Nlevels ! j)"

subsection \<open>The errors of the full and of the restricted model\<close>

text \<open>
  A two-dimensional array is the list of its rows. The D-variable \<open>workd\<close> of a source
  has one row per subject and one column per contrast. \<open>subjslots\<close> marks, for every
  cell of between-subjects levels, the subjects of the cell with 1 and the others with 0;
  the loop \<^verbatim>\<open>while incr(idx,loopcap) <> -1\<close> of \<open>subtr_cellmeans\<close> visits the
  cells one after the other and reads the marks of a cell as \<open>tsubjslots[idx]\<close>. The
  embedding takes the list \<open>masks\<close> of these vectors of marks, in the order of the
  loop (the counter \<open>incr\<close> is not defined in the module).
\<close>

text \<open>\<open>add.reduce(workd[i]*workd[j])\<close>\<close>

definition dot :: "real list \<Rightarrow> real list \<Rightarrow> real" where
  "dot xs ys = sum_list (map2 (*) xs ys)"

text \<open>\<open>transpose\<close> of a two-dimensional array that has at least one row.\<close>

definition transpose_py :: "real list list \<Rightarrow> real list list" where
  "transpose_py a = map (\<lambda>v. map (\<lambda>row. row ! v) a) [0..<length (hd a)]"

text \<open>
  \<^verbatim>\<open>def multivar_sscalc(workd):
     ...
         levels = workd.shape[0] # works because workd is always 2D
     sserr = zeros((levels,levels),'f')
     for i in range(levels):
         for j in range(i,levels):
             ssval = add.reduce(workd[i]*workd[j])
             sserr[i,j] = ssval
             sserr[j,i] = ssval
     return sserr\<close>
\<close>

definition multivar_sscalc :: "real list list \<Rightarrow> real list list" where
  "multivar_sscalc workd =
     (let levels = length workd
      in map (\<lambda>i. map (\<lambda>j. if i \<le> j then dot (workd ! i) (workd ! j)
                              else dot (workd ! j) (workd ! i)) [0..<levels]) [0..<levels])"

text \<open>\<open>compress(condition, a)\<close>: the entries of \<open>a\<close> where the condition is not zero.\<close>

definition compress :: "real list \<Rightarrow> real list \<Rightarrow> real list" where
  "compress condition a = map snd (filter (\<lambda>(c, x). c \<noteq> 0) (zip condition a))"

text \<open>
  The body of the loop of \<open>subtr_cellmeans\<close>:
  \<^verbatim>\<open>msk = tsubjslots[idx]
         thisgroup = tworkd*msk[NewAxis,:]
         groupmns = mean(compress(msk,thisgroup),1)
         errors = errors - multiply.outer(groupmns,msk)\<close>
  \<open>mean\<close> over axis 1 divides the sum of every row by the number of its entries.
\<close>

definition group_means :: "real list list \<Rightarrow> real list \<Rightarrow> error + real list" where
  "group_means tworkd msk =
     map_err (\<lambda>row. let kept = compress msk (map2 (*) row msk)
                   in py_div (sum_list kept) (real (length kept))) tworkd"

definition subtract_outer :: "real list list \<Rightarrow> real list \<Rightarrow> real list \<Rightarrow> real list list" where
  "subtract_outer errors groupmns msk =
     map2 (\<lambda>erow g. map2 (\<lambda>e mk. e - g * mk) erow msk) errors groupmns"

fun subtr_cellmeans_loop ::
  "real list list \<Rightarrow> real list list \<Rightarrow> real list list \<Rightarrow> error + real list list" where
  "subtr_cellmeans_loop tworkd errors [] = Inr errors"
| "subtr_cellmeans_loop tworkd errors (msk # masks) =
     bind_err (group_means tworkd msk) (\<lambda>groupmns.
       subtr_cellmeans_loop tworkd (subtract_outer errors groupmns msk) masks)"

text \<open>
  \<^verbatim>\<open>def subtr_cellmeans(workd,subjslots):
     ...
     tworkd = transpose(workd) # swap subj. and variable dims
     errors = 1.0 * tworkd
     ...
     while incr(idx,loopcap) <> -1:  # loop through source btw level-combos
         ...
     return errors\<close>
\<close>

definition subtr_cellmeans :: "real list list \<Rightarrow> real list list \<Rightarrow> error + real list list" where
  "subtr_cellmeans workd masks =
     (let tworkd = transpose_py workd; errors = map (map (\<lambda>x. 1 * x)) tworkd
      in subtr_cellmeans_loop tworkd errors masks)"

text \<open>
  \<^verbatim>\<open>def d_full_model(workd,subjslots):
     workd = subtr_cellmeans(workd,subjslots)
     sserr = multivar_SScalc(workd)
     return sserr\<close>
\<close>

definition d_full_model :: "real list list \<Rightarrow> real list list \<Rightarrow> error + real list list" where
  "d_full_model workd masks =
     bind_err (subtr_cellmeans workd masks) (\<lambda>workd'. Inr (multivar_sscalc workd'))"

text \<open>
  \<^verbatim>\<open>def d_restrict_mean(workd,subjslots):
     errors = subtr_cellmeans(workd,subjslots)
     grandDmeans = mean(workd,0,1)
     errors = errors + transpose(grandDmeans) # errors has reversed dims!!
     sserr = multivar_SScalc(errors)
     return sserr\<close>
\<close>

definition d_restrict_mean :: "real list list \<Rightarrow> real list list \<Rightarrow> error + real list list" where
  "d_restrict_mean workd masks =
     bind_err (subtr_cellmeans workd masks) (\<lambda>errors.
     bind_err (map_err (\<lambda>col. py_div (sum_list col) (real (length workd))) (transpose_py workd))
       (\<lambda>grandDmeans.
         Inr (multivar_sscalc (map2 (\<lambda>erow g. map (\<lambda>e. e + g) erow) errors grandDmeans))))"

text \<open>
  The same quantities in the words of the specification. \<open>mat p n f\<close> is the array with
  \<open>p\<close> rows and \<open>n\<close> columns and the entries \<open>f v s\<close>. The cell of a subject is the
  vector of marks that marks it, the mean of a cell the mean of a contrast over the
  subjects of the cell, the residual of a subject its value less the mean of its cell,
  and the cross-product matrix of \<open>p\<close> variables over \<open>n\<close> subjects has the entries
  \<open>\<Sum>s. e i s * e j s\<close>.
\<close>

definition mat :: "nat \<Rightarrow> nat \<Rightarrow> (nat \<Rightarrow> nat \<Rightarrow> real) \<Rightarrow> real list list" where
  "mat p n f = map (\<lambda>v. map (\<lambda>s. f v s) [0..<n]) [0..<p]"

definition spec_cell :: "real list list \<Rightarrow> nat \<Rightarrow> real list" where
  "spec_cell masks s = (case find (\<lambda>msk. msk ! s \<noteq> 0) masks of Some msk \<Rightarrow> msk | None \<Rightarrow> [])"

definition spec_cell_mean :: "real list list \<Rightarrow> real list \<Rightarrow> nat \<Rightarrow> real" where
  "spec_cell_mean workd msk v =
     (\<Sum>s\<leftarrow>filter (\<lambda>s. msk ! s \<noteq> 0) [0..<length workd]. workd ! s ! v)
       / real (length (filter (\<lambda>s. msk ! s \<noteq> 0) [0..<length workd]))"

definition spec_residual :: "real list list \<Rightarrow> real list list \<Rightarrow> nat \<Rightarrow> nat \<Rightarrow> real" where
  "spec_residual workd masks v s = workd ! s ! v - spec_cell_mean workd (spec_cell masks s) v"

definition spec_grand_mean :: "real list list \<Rightarrow> nat \<Rightarrow> real" where
  "spec_grand_mean workd v = (\<Sum>s\<leftarrow>[0..<length workd]. workd ! s ! v) / real (length workd)"

definition spec_cross_products :: "nat \<Rightarrow> nat \<Rightarrow> (nat \<Rightarrow> nat \<Rightarrow> real) \<Rightarrow> real list list" where
  "spec_cross_products p n e = mat p p (\<lambda>i j. \<Sum>s\<leftarrow>[0..<n]. e i s * e j s)"

text \<open>
  The data the claim is about: at least one subject, every subject with the same number
  of contrasts, every cell with marks 0 and 1 for all subjects and at least one subject,
  and every subject in exactly one cell.
\<close>

definition wf_design :: "real list list \<Rightarrow> real list list \<Rightarrow> bool" where
  "wf_design workd masks \<longleftrightarrow>
     workd \<noteq> [] \<and> (\<forall>row\<in>set workd. length row = length (hd workd)) \<and>
     (\<forall>msk\<in>set masks. length msk = length workd \<and> set msk \<subseteq> {0, 1} \<and> 1 \<in> set msk) \<and>
     (\<forall>s<length workd. (\<Sum>msk\<leftarrow>masks. msk ! s) = 1)"

subsection \<open>The opening of \<open>anova\<close>\<close>

text \<open>
  The value that \<open>anova\<close> holds in \<open>Bwithins\<close> is the object that \<open>findwithin\<close>
  returns, a list, and the operators that \<open>anova\<close> applies to it are those of
  integers. A Python object here is an integer or a list of integers; \<open>~\<close> and \<open>&\<close>
  are defined on integers and raise \<open>TypeError\<close> otherwise.
\<close>

datatype pyobj = PyInt int | PyList "int list"

definition py_invert :: "pyobj \<Rightarrow> error + pyobj" where
  "py_invert x = (case x of PyInt i \<Rightarrow> Inr (PyInt (NOT i)) | PyList xs \<Rightarrow> Inl TypeError)"

definition py_and :: "pyobj \<Rightarrow> pyobj \<Rightarrow> error + pyobj" where
  "py_and x y =
     (case x of
        PyInt i \<Rightarrow> (case y of PyInt j \<Rightarrow> Inr (PyInt (i AND j)) | PyList ys \<Rightarrow> Inl TypeError)
      | PyList xs \<Rightarrow> Inl TypeError)"

text \<open>
  \<^verbatim>\<open>alluniqueslist = [0]*(len(data[0])-variables) # all cols but data cols
    Nlevels = [0]*(len(data[0])-variables)        # (as above)
    for column in range(len(Nlevels)):
        alluniqueslist[column] = pstat.unique(pstat.colex(data,column))
        Nlevels[column] = len(alluniqueslist[column])

    Ncells = multiply.reduce(Nlevels[1:]) # total num cells (w/i AND btw)
    Nfactors = len(Nlevels[1:])             # total num factors
    Nallsources = 2**(Nfactors+1)  # total no. possible sources (factor-combos)
    Nsubjects = len(alluniqueslist[0])  # total # subj in study

    Bwithins = findwithin(data)         # binary w/i subj factors (excl. col 0)
    Bbetweens = ~Bwithins & (Nallsources-1) - 1\<close>
  with \<open>variables = 1\<close>. The result is what the rest of \<open>anova\<close> goes on with:
  \<open>Nlevels\<close>, \<open>Bwithins\<close> and \<open>Bbetweens\<close>.
\<close>

definition anova_start :: "int list list \<Rightarrow> error + int list \<times> pyobj \<times> pyobj" where
  "anova_start data =
     bind_err (getitem data 0) (\<lambda>row0.
     bind_err (map_err (\<lambda>column. bind_err (colex data column) (\<lambda>c. Inr (unique c)))
                 (map int [0..<length row0 - 1])) (\<lambda>alluniqueslist.
       let Nlevels = map (\<lambda>u. int (length u)) alluniqueslist
       in bind_err (getitem alluniqueslist 0) (\<lambda>subjects.
          bind_err (findwithin data) (\<lambda>withinvec.
            let Bwithins = PyList withinvec
            in bind_err (py_invert Bwithins) (\<lambda>notBwithins.
               bind_err (py_and notBwithins (PyInt (Nallsources (Nfactors Nlevels) - 1 - 1)))
                 (\<lambda>Bbetweens. Inr (Nlevels, Bwithins, Bbetweens)))))))"

section \<open>Properties\<close>

subsection \<open>Bit masks and lists of columns\<close>

lemma subset_py_bit: "subset_py (push_bit j 1) source \<longleftrightarrow> bit source j"
proof
  assume "subset_py (push_bit j 1) source"
  then have "bit (push_bit j 1 AND source) j = bit (push_bit j (1::int)) j"
    by (simp add: subset_py_def)
  then show "bit source j"
    by (simp add: bit_and_iff bit_exp_iff)
next
  assume "bit source j"
  then show "subset_py (push_bit j 1) source"
    unfolding subset_py_def
    by (intro bit_eqI) (auto simp add: bit_and_iff bit_exp_iff)
qed

lemma foldl_append_filter:
  "foldl (\<lambda>acc j. if P j then acc @ [j] else acc) acc xs = acc @ filter P xs"
  by (induction xs arbitrary: acc) simp_all

lemma makelist_filter: "makelist source ncols = filter (bit source) [0..<ncols]"
  unfolding makelist_def subset_py_bit
  using foldl_append_filter [of "bit source" "[]" "[0..<ncols]"] by simp

lemma foldl_add_pow:
  "foldl (\<lambda>outbin item. outbin + 2 ^ item) a xs = a + (\<Sum>j\<leftarrow>xs. (2::int) ^ j)"
  by (induction xs arbitrary: a) simp_all

lemma makebin_sum: "makebin xs = (\<Sum>j\<leftarrow>xs. 2 ^ j)"
  by (simp add: makebin_def foldl_add_pow)

lemma sum_filter_bits: "(\<Sum>j\<leftarrow>filter (bit s) [0..<n]. (2::int) ^ j) = take_bit n s"
proof (induction n)
  case 0
  show ?case by simp
next
  case (Suc n)
  then show ?case by (simp add: take_bit_Suc_from_most)
qed

lemma makebin_makelist: "makebin (makelist source ncols) = take_bit ncols source"
  by (simp add: makebin_sum makelist_filter sum_filter_bits)

lemma take_bit_id_bits:
  fixes s :: int
  assumes "0 \<le> s" and "\<forall>j. bit s j \<longrightarrow> j < n"
  shows "take_bit n s = s"
proof (rule bit_eqI)
  fix m
  show "bit (take_bit n s) m = bit s m"
    using assms(2) by (auto simp add: bit_take_bit_iff)
qed


lemma bit_sum_pow_distinct:
  "distinct xs \<Longrightarrow> bit (\<Sum>j\<leftarrow>xs. (2::int) ^ j) n \<longleftrightarrow> n \<in> set xs"
proof (induction xs arbitrary: n)
  case Nil
  show ?case by simp
next
  case (Cons x xs)
  let ?S = "\<Sum>j\<leftarrow>xs. (2::int) ^ j"
  from Cons have IH: "\<And>m. bit ?S m \<longleftrightarrow> m \<in> set xs" and nx: "x \<notin> set xs"
    by simp_all
  have "2 ^ x + ?S = 2 ^ x OR ?S"
    by (rule disjunctive_add_eq_or, rule bit_eqI) (use IH nx in \<open>auto simp add: bit_and_iff bit_exp_iff\<close>)
  then show ?case
    using IH by (auto simp add: bit_or_iff bit_exp_iff)
qed

lemma filter_mem_strict_sorted:
  assumes "sorted_wrt (<) lst" and "\<forall>j\<in>set lst. j < n"
  shows "filter (\<lambda>j. j \<in> set lst) [0..<n] = lst"
proof -
  have "sorted_wrt (<) (filter (\<lambda>j. j \<in> set lst) [0..<n])"
    by (simp add: sorted_wrt_filter)
  moreover have "set (filter (\<lambda>j. j \<in> set lst) [0..<n]) = set lst"
    using assms(2) by auto
  ultimately show ?thesis
    using assms(1) strict_sorted_equal by blast
qed

lemma makelist_makebin:
  assumes "sorted_wrt (<) lst" and "\<forall>j\<in>set lst. j < ncols"
  shows "makelist (makebin lst) ncols = lst"
proof -
  have "distinct lst" using assms(1) by (simp add: strict_sorted_iff)
  then have "bit (makebin lst) = (\<lambda>j. j \<in> set lst)"
    by (simp add: makebin_sum bit_sum_pow_distinct fun_eq_iff)
  then show ?thesis
    using filter_mem_strict_sorted [OF assms] by (simp add: makelist_filter)
qed

text \<open>
  Claim C10. Converting a mask to its list of columns and back gives the mask again, for
  every non-negative \<open>source\<close> whose set bits all lie below \<open>ncols\<close>; and
  converting a strictly increasing list of bit positions below \<open>ncols\<close> to a mask and
  back gives the list again.
\<close>

theorem makebin_makelist_roundtrip:
  "(0 \<le> source \<and> (\<forall>j. bit source j \<longrightarrow> j < ncols)
      \<longrightarrow> makebin (makelist source ncols) = source) \<and>
   (sorted_wrt (<) lst \<and> (\<forall>j\<in>set lst. j < ncols)
      \<longrightarrow> makelist (makebin lst) ncols = lst)"
  using take_bit_id_bits [of source ncols] makelist_makebin [of lst ncols]
  by (simp add: makebin_makelist)

lemma bit_below_bound:
  fixes s :: int
  assumes "0 \<le> s" and "s < 2 ^ n" and "bit s j"
  shows "j < n"
proof (rule ccontr)
  assume "\<not> j < n"
  then have "(2::int) ^ n \<le> 2 ^ j" by (simp add: power_increasing)
  with assms(2) have "s < 2 ^ j" by linarith
  with assms(1) have "s div 2 ^ j = 0" by simp
  with assms(3) show False by (simp add: bit_iff_odd)
qed

theorem makebin_makelist_roundtrip_witness:
  "makebin (makelist 5 3) = 5 \<and> makelist (makebin [0, 2]) 3 = [0, 2]"
proof -
  have b: "\<forall>j. bit (5::int) j \<longrightarrow> j < 3"
    using bit_below_bound [of 5 3] by simp
  show ?thesis
    using makebin_makelist_roundtrip [of 5 3 "[0, 2]"] b by simp
qed

subsection \<open>The enumeration of the sources and the memo\<close>

declare range_py.simps [simp del]

lemma range_py_2_set: "set (range_py a b 2) = {x. a \<le> x \<and> x < b \<and> even (x - a)}"
proof (induction a b "2::int" rule: range_py.induct)
  case (1 start stop)
  show ?case
  proof (cases "start < stop")
    case True
    have "set (range_py start stop 2) = insert start (set (range_py (start + 2) stop 2))"
      using True by (subst range_py.simps) simp
    also have "\<dots> = insert start {x. start + 2 \<le> x \<and> x < stop \<and> even (x - (start + 2))}"
      using 1 True by simp
    also have "\<dots> = {x. start \<le> x \<and> x < stop \<and> even (x - start)}"
    proof (rule set_eqI)
      fix x
      have "even (x - start) \<Longrightarrow> start \<le> x \<Longrightarrow> x \<noteq> start \<Longrightarrow> start + 2 \<le> x"
        by presburger
      then show "x \<in> insert start {x. start + 2 \<le> x \<and> x < stop \<and> even (x - (start + 2))}
          \<longleftrightarrow> x \<in> {x. start \<le> x \<and> x < stop \<and> even (x - start)}"
        using True by auto
    qed
    finally show ?thesis .
  next
    case False
    then show ?thesis by (subst range_py.simps) auto
  qed
qed

lemma range_py_2_snoc:
  "a \<le> b \<Longrightarrow> even (b - a) \<Longrightarrow> range_py a b 2 @ [b] = range_py a (b + 2) 2"
proof (induction a b "2::int" rule: range_py.induct)
  case (1 start stop)
  show ?case
  proof (cases "start < stop")
    case True
    with 1(2,3) have le: "start + 2 \<le> stop" by presburger
    have ev: "even (stop - (start + 2))" using 1(3) by simp
    have "range_py start stop 2 @ [stop] = start # (range_py (start + 2) stop 2 @ [stop])"
      using True by (subst range_py.simps) simp
    also have "\<dots> = start # range_py (start + 2) (stop + 2) 2"
      using 1(1) True le ev by simp
    also have "\<dots> = range_py start (stop + 2) 2"
      using True by (subst (2) range_py.simps) simp
    finally show ?thesis .
  next
    case False
    with 1(2) have "start = stop" by simp
    then show ?thesis
      by (simp add: range_py.simps [of stop stop] range_py.simps [of stop "stop + 2"]
          range_py.simps [of "stop + 2" "stop + 2"])
  qed
qed

lemma range_py_2_sorted: "sorted_wrt (<) (range_py a b 2)"
proof (induction a b "2::int" rule: range_py.induct)
  case (1 start stop)
  show ?case
  proof (cases "start < stop")
    case True
    have "range_py start stop 2 = start # range_py (start + 2) stop 2"
      using True by (subst range_py.simps) simp
    then show ?thesis using 1 True by (auto simp add: range_py_2_set)
  next
    case False
    then show ?thesis by (subst range_py.simps) simp
  qed
qed


lemma getitem_nat: "i < length xs \<Longrightarrow> getitem xs (int i) = Inr (xs ! i)"
  by (simp add: getitem_def)

lemma index_py_mem: "x \<in> set xs \<Longrightarrow> \<exists>i. index_py xs x = Inr i \<and> i < length xs"
proof (induction xs)
  case Nil
  then show ?case by simp
next
  case (Cons y ys)
  show ?case
  proof (cases "y = x")
    case True
    then show ?thesis by simp
  next
    case False
    with Cons.prems have "x \<in> set ys" by simp
    from Cons.IH [OF this] obtain i where "index_py ys x = Inr i" "i < length ys" by blast
    with False show ?thesis by simp
  qed
qed

lemma lookup_effect_mem:
  assumes "subsource \<in> set (alleffsources g)"
    and "length (alleffects g) = length (alleffsources g)"
  shows "\<exists>eff. lookup_effect g subsource = Inr eff"
proof -
  from index_py_mem [OF assms(1)] obtain i
    where "index_py (alleffsources g) subsource = Inr i" "i < length (alleffsources g)" by blast
  with assms(2) show ?thesis by (simp add: lookup_effect_def getitem_nat)
qed

lemma sub_effects_between_ok:
  assumes "\<forall>x\<in>set l. subset_py (x - 1) (source - 1) \<longrightarrow> x \<in> set (alleffsources g)"
    and "length (alleffects g) = length (alleffsources g)"
  shows "\<exists>v. sub_effects_between g source acc l = Inr v"
  using assms(1)
proof (induction l arbitrary: acc)
  case Nil
  show ?case by simp
next
  case (Cons x l)
  show ?case
  proof (cases "subset_py (x - 1) (source - 1)")
    case True
    with Cons.prems have "x \<in> set (alleffsources g)" by simp
    from lookup_effect_mem [OF this assms(2)] obtain eff where "lookup_effect g x = Inr eff" ..
    with True Cons show ?thesis by simp
  next
    case False
    with Cons show ?thesis by simp
  qed
qed

lemma sub_effects_mixed_ok:
  assumes "\<forall>x\<in>set l. propersubset (x - 1) (source - 1) \<and>
              (x - 1) AND W = (source - 1) AND W \<and> x - 1 \<noteq> (source - 1) AND W
              \<longrightarrow> x \<in> set (alleffsources g)"
    and "length (alleffects g) = length (alleffsources g)"
  shows "\<exists>v. sub_effects_mixed W g source acc l = Inr v"
  using assms(1)
proof (induction l arbitrary: acc)
  case Nil
  show ?case by simp
next
  case (Cons x l)
  show ?case
  proof (cases "propersubset (x - 1) (source - 1) \<and>
              (x - 1) AND W = (source - 1) AND W \<and> x - 1 \<noteq> (source - 1) AND W")
    case True
    with Cons.prems have "x \<in> set (alleffsources g)" by simp
    from lookup_effect_mem [OF this assms(2)] obtain eff where "lookup_effect g x = Inr eff" ..
    with True Cons show ?thesis by simp
  next
    case False
    with Cons show ?thesis by auto
  qed
qed

lemma between_not_subset:
  assumes "3 \<le> s" and "(s - 1) AND W = 0"
  shows "\<not> subset_py (s - 1) W"
  using assms by (auto simp add: subset_py_def)

lemma within_part_source:
  fixes s :: int
  assumes "3 \<le> s" and "odd s" and "(s - 1) AND W \<noteq> 0"
  shows "3 \<le> ((s - 1) AND W) + 1" and "odd (((s - 1) AND W) + 1)"
    and "((s - 1) AND W) + 1 \<le> s"
proof -
  let ?x = "(s - 1) AND W"
  have "even (s - 1)" using assms(2) by simp
  then have ev: "even ?x" by (simp add: even_and_iff)
  have nn: "0 \<le> ?x" using assms(1) by (simp add: and_nonnegative_int_iff)
  from ev nn assms(3) have "2 \<le> ?x" by presburger
  then show "3 \<le> ?x + 1" by simp
  from ev show "odd (?x + 1)" by simp
  have "?x \<le> s - 1" using assms(1) by (intro AND_upper1) simp
  then show "?x + 1 \<le> s" by simp
qed


lemma anova_source_ok:
  fixes g :: "'a::{plus,minus} globals"
  assumes inv: "memo_inv W (range_py 3 s 2) g" and s3: "3 \<le> s" and odd: "odd s"
  shows "\<exists>g'. anova_source W sM ga g s = Inr g' \<and> memo_inv W (range_py 3 (s + 2) 2) g'"
proof -
  let ?done = "range_py 3 s 2"
  let ?P = "\<lambda>x. subset_py (x - 1) W"
  let ?K = "\<lambda>x. source_kind W x \<noteq> PureWithin"
  define g1 where "g1 = (if (s - 1) AND W \<noteq> 0 then g\<lparr>Bwsources := Bwsources g @ [s - 1]\<rparr> else g)"
  define g2 where "g2 = (if ?P s then g1\<lparr>Bwonly_sources := Bwonly_sources g1 @ [s - 1]\<rparr> else g1)"
  have snoc: "range_py 3 (s + 2) 2 = ?done @ [s]"
    using range_py_2_snoc [of 3 s] s3 odd by simp
  have eff2: "alleffsources g2 = filter ?K ?done" "length (alleffects g2) = length (alleffsources g2)"
    using inv by (simp_all add: g2_def g1_def memo_inv_def)
  have bw2: "Bwonly_sources g2 = map (\<lambda>x. x - 1) (filter ?P (?done @ [s]))"
    using inv by (simp add: g2_def g1_def memo_inv_def)
  have step: "anova_source W sM ga g s =
    (case source_kind W s of
       PureBetween \<Rightarrow>
         (case sub_effects_between g2 s (ga s) (range_py 3 s 2) of
            Inl e \<Rightarrow> Inl e
          | Inr sub_effects \<Rightarrow>
              Inr (g2\<lparr>alleffects := alleffects g2 @ [sM s - sub_effects],
                      alleffsources := alleffsources g2 @ [s]\<rparr>))
     | PureWithin \<Rightarrow>
         (case index_py (Bwonly_sources g2) ((s - 1) AND W) of
            Inl e \<Rightarrow> Inl e
          | Inr dindex \<Rightarrow> Inr g2)
     | MixedSource \<Rightarrow>
         (case index_py (Bwonly_sources g2) ((s - 1) AND W) of
            Inl e \<Rightarrow> Inl e
          | Inr dindex \<Rightarrow> d_restrict_source_memo W sM ga g2 s))"
    by (simp only: anova_source_def g2_def g1_def Let_def)
  show ?thesis
  proof (cases "source_kind W s")
    case PureBetween
    then have z: "(s - 1) AND W = 0"
      by (simp add: source_kind_def split: if_splits)
    have "\<forall>x\<in>set ?done. subset_py (x - 1) (s - 1) \<longrightarrow> x \<in> set (alleffsources g2)"
    proof (intro ballI impI)
      fix x assume x: "x \<in> set ?done" and sub: "subset_py (x - 1) (s - 1)"
      from sub have "(x - 1) AND W = ((x - 1) AND (s - 1)) AND W"
        by (simp add: subset_py_def)
      also have "\<dots> = 0" using z by (simp add: and.assoc)
      finally have "source_kind W x = PureBetween" by (simp add: source_kind_def)
      with x show "x \<in> set (alleffsources g2)" by (simp add: eff2)
    qed
    from sub_effects_between_ok [OF this eff2(2)] obtain v
      where v: "sub_effects_between g2 s (ga s) ?done = Inr v" ..
    have "\<not> ?P s" using between_not_subset [OF s3 z] .
    then show ?thesis
      using PureBetween v eff2 bw2 by (simp add: step snoc memo_inv_def)
  next
    case PureWithin
    then have sub: "?P s"
      by (simp add: source_kind_def split: if_splits)
    then have "(s - 1) AND W = s - 1" by (simp add: subset_py_def)
    moreover have "s - 1 \<in> set (Bwonly_sources g2)"
      using sub by (simp add: bw2)
    ultimately obtain i where "index_py (Bwonly_sources g2) ((s - 1) AND W) = Inr i"
      using index_py_mem by fastforce
    then show ?thesis
      using PureWithin sub eff2 bw2 by (simp add: step snoc memo_inv_def)
  next
    case MixedSource
    then have nz: "(s - 1) AND W \<noteq> 0" and nsub: "\<not> ?P s"
      by (simp_all add: source_kind_def split: if_splits)
    let ?x = "((s - 1) AND W) + 1"
    from within_part_source [OF s3 odd nz]
    have x3: "3 \<le> ?x" and xodd: "odd ?x" and xle: "?x \<le> s" .
    from nsub have "(s - 1) AND W \<noteq> s - 1" by (simp add: subset_py_def)
    then have "?x \<noteq> s" by linarith
    with xle have "?x < s" by simp
    with x3 xodd have "?x \<in> set ?done" by (simp add: range_py_2_set)
    moreover have "?P ?x" by (simp add: subset_py_def and.assoc)
    ultimately have "?x \<in> set (filter ?P ?done)" by simp
    then have "?x - 1 \<in> set (Bwonly_sources g2)"
      unfolding bw2 using nsub by (simp only: set_map filter_append filter.simps if_False append_Nil2) (rule imageI)
    then have "(s - 1) AND W \<in> set (Bwonly_sources g2)" by simp
    then obtain i where idx: "index_py (Bwonly_sources g2) ((s - 1) AND W) = Inr i"
      using index_py_mem by fastforce
    have "\<forall>x\<in>set (range_py 3 (s - 2) 2). propersubset (x - 1) (s - 1) \<and>
              (x - 1) AND W = (s - 1) AND W \<and> x - 1 \<noteq> (s - 1) AND W
              \<longrightarrow> x \<in> set (alleffsources g2)"
    proof (intro ballI impI)
      fix x assume x: "x \<in> set (range_py 3 (s - 2) 2)"
        and c: "propersubset (x - 1) (s - 1) \<and>
              (x - 1) AND W = (s - 1) AND W \<and> x - 1 \<noteq> (s - 1) AND W"
      from x have "x \<in> set ?done" by (auto simp add: range_py_2_set)
      moreover from c nz have "source_kind W x = MixedSource"
        by (auto simp add: source_kind_def subset_py_def)
      ultimately show "x \<in> set (alleffsources g2)" by (simp add: eff2)
    qed
    from sub_effects_mixed_ok [OF this eff2(2)] obtain v
      where v: "sub_effects_mixed W g2 s (ga s) (range_py 3 (s - 2) 2) = Inr v" ..
    show ?thesis
      using MixedSource idx v nsub eff2 bw2
      by (simp add: step snoc memo_inv_def d_restrict_source_memo_def)
  qed
qed

lemma anova_loop_ok:
  fixes g :: "'a::{plus,minus} globals"
  shows "memo_inv W (range_py 3 s 2) g \<Longrightarrow> 3 \<le> s \<Longrightarrow> odd s \<Longrightarrow>
    \<exists>g'. anova_loop W sM ga g (range_py s N 2) = Inr g' \<and>
       memo_inv W (range_py 3 s 2 @ range_py s N 2) g'"
proof (induction s N "2::int" arbitrary: g rule: range_py.induct)
  case (1 start stop)
  show ?case
  proof (cases "start < stop")
    case True
    have unf: "range_py start stop 2 = start # range_py (start + 2) stop 2"
      using True by (subst range_py.simps) simp
    from anova_source_ok [OF 1(2,3,4)] obtain g1
      where g1: "anova_source W sM ga g start = Inr g1"
        and inv1: "memo_inv W (range_py 3 (start + 2) 2) g1" by blast
    have "3 \<le> start + 2" "odd (start + 2)" using 1(3,4) by simp_all
    from 1(1) [OF _ inv1 this] True obtain g'
      where "anova_loop W sM ga g1 (range_py (start + 2) stop 2) = Inr g'"
        and "memo_inv W (range_py 3 (start + 2) 2 @ range_py (start + 2) stop 2) g'" by auto
    moreover have "range_py 3 (start + 2) 2 = range_py 3 start 2 @ [start]"
      using range_py_2_snoc [of 3 start] 1(3,4) by simp
    ultimately show ?thesis using g1 by (simp add: unf)
  next
    case False
    then have "range_py start stop 2 = []" by (subst range_py.simps) simp
    with 1(2) show ?thesis by simp
  qed
qed

text \<open>
  Claim C9. Over the sources in increasing order, for every number of factors and every
  mask of within-subjects factors, no lookup in the memo fails: the loop ends without an
  exception, and the memo then holds the effect of every source that is not of
  within-subjects factors only, in the order of the loop.
\<close>

theorem memo_lookups_succeed:
  fixes sourceMarray ga :: "int \<Rightarrow> 'a::{plus,minus}"
  shows "\<exists>g. anova_memo k Bwithins sourceMarray ga = Inr g \<and>
     alleffsources g = filter (\<lambda>s. source_kind Bwithins s \<noteq> PureWithin) (sources k)"
proof -
  have e: "range_py 3 3 2 = []" by (subst range_py.simps) simp
  have "memo_inv Bwithins (range_py 3 3 2)
     (\<lparr>alleffects = [], alleffsources = [], Bwsources = [], Bwonly_sources = []\<rparr> :: 'a globals)"
    by (simp add: e memo_inv_def)
  from anova_loop_ok [OF this, of sourceMarray ga "Nallsources k"]
  show ?thesis by (auto simp add: anova_memo_def sources_def e memo_inv_def)
qed


theorem memo_lookups_succeed_witness:
  "\<exists>g. anova_memo 3 4 (\<lambda>s. real_of_int s) (\<lambda>s. 0) = Inr g \<and>
     alleffsources g = [3, 7, 9, 11, 13, 15]"
proof -
  have "sources 3 = [3, 5, 7, 9, 11, 13, 15]" by code_simp
  moreover have "filter (\<lambda>s. source_kind 4 s \<noteq> PureWithin) [3, 5, 7, 9, 11, 13, 15]
      = [3, 7, 9, 11, 13, 15]"
    by code_simp
  ultimately show ?thesis
    using memo_lookups_succeed [of 3 4 "\<lambda>s. real_of_int s" "\<lambda>s. 0"] by simp
qed

lemma bit_pred_odd:
  fixes s :: int
  assumes "odd s"
  shows "bit (s - 1) j \<longleftrightarrow> 0 < j \<and> bit s j"
proof (cases j)
  case 0
  with assms show ?thesis by (simp add: bit_0)
next
  case (Suc n)
  from assms have "(s - 1) div 2 = s div 2" by presburger
  with Suc show ?thesis by (simp add: bit_Suc)
qed

lemma subset_py_bits: "subset_py a b \<longleftrightarrow> (\<forall>j. bit a j \<longrightarrow> bit b j)"
  by (auto simp add: subset_py_def bit_eq_iff bit_and_iff)

lemma sources_set: "set (sources k) = {s. odd s \<and> 3 \<le> s \<and> s \<le> 2 ^ (k + 1) - 1}"
  by (auto simp add: sources_def Nallsources_def range_py_2_set)

text \<open>
  Claim C7. For a design with \<open>k\<close> factors the loop runs over exactly the odd integers
  from 3 to \<open>2 ^ (k + 1) - 1\<close>, in increasing order. Each of them is handled as a
  between-subjects source when \<open>(source - 1) AND Bwithins = 0\<close>, as a source of
  within-subjects factors only when every bit of the source other than the subject bit
  is a bit of \<open>Bwithins\<close>, and as a mixed source otherwise; and the test that starts
  the computation of a D-variable, \<open>subset (source - 1) Bwithins\<close>, holds for exactly
  the sources of within-subjects factors only.
\<close>

theorem sources_enumeration_and_kind:
  "sorted_wrt (<) (sources k) \<and>
   set (sources k) = {s. odd s \<and> 3 \<le> s \<and> s \<le> 2 ^ (k + 1) - 1} \<and>
   (\<forall>s\<in>set (sources k).
      source_kind W s =
        (if (s - 1) AND W = 0 then PureBetween
         else if (\<forall>j. 0 < j \<and> bit s j \<longrightarrow> bit W j) then PureWithin
         else MixedSource) \<and>
      (subset_py (s - 1) W \<longleftrightarrow> source_kind W s = PureWithin))"
proof (intro conjI ballI)
  show "sorted_wrt (<) (sources k)"
    by (simp add: sources_def range_py_2_sorted)
  show "set (sources k) = {s. odd s \<and> 3 \<le> s \<and> s \<le> 2 ^ (k + 1) - 1}"
    by (rule sources_set)
next
  fix s assume "s \<in> set (sources k)"
  then have o: "odd s" and s3: "3 \<le> s" by (simp_all add: sources_set)
  have "subset_py (s - 1) W \<longleftrightarrow> (\<forall>j. 0 < j \<and> bit s j \<longrightarrow> bit W j)"
    using o by (simp add: subset_py_bits bit_pred_odd)
  then show "source_kind W s =
        (if (s - 1) AND W = 0 then PureBetween
         else if (\<forall>j. 0 < j \<and> bit s j \<longrightarrow> bit W j) then PureWithin
         else MixedSource)"
    by (simp add: source_kind_def)
  show "subset_py (s - 1) W \<longleftrightarrow> source_kind W s = PureWithin"
    using between_not_subset [OF s3] by (auto simp add: source_kind_def)
qed

theorem sources_enumeration_and_kind_witness:
  "sorted_wrt (<) (sources 2) \<and>
   set (sources 2) = {s. odd s \<and> 3 \<le> s \<and> s \<le> 2 ^ (2 + 1) - 1} \<and>
   source_kind 4 3 = PureBetween \<and> source_kind 4 5 = PureWithin \<and>
   source_kind 4 7 = MixedSource \<and> subset_py (5 - 1) 4"
proof -
  have m: "sources 2 = [3, 5, 7]" by code_simp
  have k: "source_kind 4 3 = PureBetween" "source_kind 4 5 = PureWithin"
    "source_kind 4 7 = MixedSource"
    by code_simp+
  show ?thesis
    using sources_enumeration_and_kind [of 2 4] k by (simp add: m)
qed

subsection \<open>The design classifier\<close>

lemma map_err_Inr: "(\<And>x. x \<in> set xs \<Longrightarrow> f x = Inr (g x)) \<Longrightarrow> map_err f xs = Inr (map g xs)"
  by (induction xs) simp_all

lemma filter_err_Inr:
  "(\<And>x. x \<in> set xs \<Longrightarrow> f x = Inr (P x)) \<Longrightarrow> filter_err f xs = Inr (filter P xs)"
  by (induction xs) simp_all

lemma unique_foldl:
  "distinct acc \<Longrightarrow>
   distinct (foldl (\<lambda>uniques item. if item \<in> set uniques then uniques else uniques @ [item]) acc xs) \<and>
   set (foldl (\<lambda>uniques item. if item \<in> set uniques then uniques else uniques @ [item]) acc xs)
     = set acc \<union> set xs \<and>
   (acc \<noteq> [] \<longrightarrow>
     foldl (\<lambda>uniques item. if item \<in> set uniques then uniques else uniques @ [item]) acc xs \<noteq> [] \<and>
     hd (foldl (\<lambda>uniques item. if item \<in> set uniques then uniques else uniques @ [item]) acc xs)
       = hd acc)"
proof (induction xs arbitrary: acc)
  case Nil
  show ?case using Nil by simp
next
  case (Cons x xs)
  show ?case
  proof (cases "x \<in> set acc")
    case True
    then show ?thesis using Cons.IH [OF Cons.prems] by auto
  next
    case False
    with Cons.prems have "distinct (acc @ [x])" by simp
    from Cons.IH [OF this] False show ?thesis by auto
  qed
qed

lemma unique_props:
  "distinct (unique xs)" "set (unique xs) = set xs"
  using unique_foldl [of "[]" xs] by (simp_all add: unique_def)

lemma unique_hd: "xs \<noteq> [] \<Longrightarrow> unique xs \<noteq> [] \<and> hd (unique xs) = hd xs"
proof -
  assume "xs \<noteq> []"
  then obtain y ys where xs: "xs = y # ys" by (cases xs) auto
  show ?thesis
    using unique_foldl [of "[y]" ys] by (simp add: unique_def xs)
qed

lemma length_unique: "length (unique xs) = card (set xs)"
  using unique_props(1,2) [of xs] distinct_card by fastforce


text \<open>
  Claim C6 says that a factor is marked as within-subjects if and only if the rows at one
  level of a reference factor hold fewer distinct subjects than rows. \<open>findwithin\<close>
  slices on the column of the factor itself, and with the level that the first row has in
  column 1,
  \<^verbatim>\<open>rows = pstat.linexand(data,col,pstat.unique(pstat.colex(data,1))[0])  # get 1 level of this factor\<close>
  The design below has four subjects; the factor of column 1 is between-subjects (the
  subjects 1 and 2 at its level 1, the subjects 3 and 4 at its level 2) and the factor of
  column 2 is measured at both of its levels on every subject. At either level of the
  other factor the classification of the specification marks column 1 as
  between-subjects and column 2 as within-subjects; \<open>findwithin\<close> returns the flags
  the other way round.
\<close>

theorem findwithin_inverts_mixed_design:
  "findwithin [[1, 1, 1, 50], [1, 1, 2, 51], [2, 1, 1, 52], [2, 1, 2, 53],
               [3, 2, 1, 54], [3, 2, 2, 55], [4, 2, 1, 56], [4, 2, 2, 57 :: int]] = Inr [1, 0] \<and>
   \<not> spec_is_within [[1, 1, 1, 50], [1, 1, 2, 51], [2, 1, 1, 52], [2, 1, 2, 53],
               [3, 2, 1, 54], [3, 2, 2, 55], [4, 2, 1, 56], [4, 2, 2, 57 :: int]] 2 1 \<and>
   \<not> spec_is_within [[1, 1, 1, 50], [1, 1, 2, 51], [2, 1, 1, 52], [2, 1, 2, 53],
               [3, 2, 1, 54], [3, 2, 2, 55], [4, 2, 1, 56], [4, 2, 2, 57 :: int]] 2 2 \<and>
   spec_is_within [[1, 1, 1, 50], [1, 1, 2, 51], [2, 1, 1, 52], [2, 1, 2, 53],
               [3, 2, 1, 54], [3, 2, 2, 55], [4, 2, 1, 56], [4, 2, 2, 57 :: int]] 1 1 \<and>
   spec_is_within [[1, 1, 1, 50], [1, 1, 2, 51], [2, 1, 1, 52], [2, 1, 2, 53],
               [3, 2, 1, 54], [3, 2, 2, 55], [4, 2, 1, 56], [4, 2, 2, 57 :: int]] 1 2"
  by code_simp

subsection \<open>The contrast coefficients of the D-variables\<close>





subsection \<open>Degrees of freedom and the F statistic\<close>

lemma bind_err_Inr [simp]: "bind_err (Inr x) f = f x"
  by (simp add: bind_err_def)

lemma bind_err_Inl [simp]: "bind_err (Inl e) f = Inl e"
  by (simp add: bind_err_def)

lemma take_levels_ok:
  "\<forall>c\<in>set cols. c < length Nlevels \<Longrightarrow> take_levels Nlevels cols = Inr (map (\<lambda>c. Nlevels ! c) cols)"
  unfolding take_levels_def by (intro map_err_Inr) (simp add: getitem_nat)

lemma Nfactors_Suc: "Nlevels \<noteq> [] \<Longrightarrow> Suc (Nfactors Nlevels) = length Nlevels"
  by (cases Nlevels) (simp_all add: Nfactors_def)

lemma bit_succ_even:
  fixes b :: int
  assumes "even b"
  shows "bit (b + 1) j \<longleftrightarrow> j = 0 \<or> bit b j"
proof (cases j)
  case 0
  with assms show ?thesis by (simp add: bit_0)
next
  case (Suc n)
  from assms have "(b + 1) div 2 = b div 2" by presburger
  with Suc show ?thesis by (simp add: bit_Suc)
qed

lemma filter_upt_zero:
  "0 < n \<Longrightarrow> P 0 \<Longrightarrow> filter P [0..<n] = 0 # filter P [1..<n]"
  by (simp add: upt_conv_Cons)

lemma filter_upt_nonzero:
  "\<not> P 0 \<Longrightarrow> filter P [0..<n] = filter P [1..<n]"
  by (cases "0 < n") (simp_all add: upt_conv_Cons)

lemma bit_Bbetweens:
  "bit (Bbetweens Nlevels W) j \<longleftrightarrow> 0 < j \<and> j < Nfactors Nlevels + 1 \<and> \<not> bit W j"
proof -
  have "Nallsources (Nfactors Nlevels) - 1 = mask (Nfactors Nlevels + 1)"
    by (simp add: Nallsources_def mask_eq_exp_minus_1)
  moreover have "odd (mask (Nfactors Nlevels + 1) :: int)" by (simp add: even_mask_iff)
  ultimately show ?thesis
    by (auto simp add: Bbetweens_def bit_and_iff bit_not_iff bit_pred_odd bit_mask_iff)
qed

lemma Bscols_eq:
  "Bscols Nlevels W = 0 # filter (\<lambda>j. \<not> bit W j) [1..<Nfactors Nlevels + 1]"
proof -
  have "even (Bbetweens Nlevels W)"
    using bit_Bbetweens [of Nlevels W 0] by (simp add: bit_0)
  then have b: "bit (Bbetweens Nlevels W + 1) = (\<lambda>j. j = 0 \<or> bit (Bbetweens Nlevels W) j)"
    by (simp add: bit_succ_even fun_eq_iff)
  have "filter (\<lambda>j. j = 0 \<or> bit (Bbetweens Nlevels W) j) [1..<Nfactors Nlevels + 1]
      = filter (\<lambda>j. \<not> bit W j) [1..<Nfactors Nlevels + 1]"
    by (rule filter_cong) (auto simp add: bit_Bbetweens)
  then show ?thesis
    by (simp add: Bscols_def makelist_filter b filter_upt_zero del: upt_Suc)
qed

lemma BNs_ok:
  assumes "Nlevels \<noteq> []"
  shows "\<exists>bns. BNs Nlevels W = Inr bns \<and> prod_list bns = spec_between_cells Nlevels W"
proof (cases "filter (\<lambda>j. \<not> bit W j) [1..<length Nlevels] = []")
  case True
  then show ?thesis
    using assms by (simp add: BNs_def Bscols_eq Nfactors_Suc spec_between_cells_def del: upt_Suc)
next
  case False
  have "take_levels Nlevels (filter (\<lambda>j. \<not> bit W j) [1..<length Nlevels])
      = Inr (map (\<lambda>c. Nlevels ! c) (filter (\<lambda>j. \<not> bit W j) [1..<length Nlevels]))"
    by (rule take_levels_ok) simp
  with False show ?thesis
    using assms by (simp add: BNs_def Bscols_eq Nfactors_Suc spec_between_cells_def del: upt_Suc)
qed

lemma source_cols_between:
  assumes "odd source"
  shows "makelist (source - 1) n = filter (bit source) [1..<n]"
proof -
  have "filter (bit (source - 1)) [0..<n] = filter (bit (source - 1)) [1..<n]"
    using assms by (intro filter_upt_nonzero) (simp add: bit_0)
  also have "\<dots> = filter (bit source) [1..<n]"
    using assms by (intro filter_cong) (auto simp add: bit_pred_odd)
  finally show ?thesis by (simp add: makelist_filter)
qed

lemma source_cols_within:
  assumes "odd source" and "0 < n"
  shows "makelist source n = 0 # filter (bit source) [1..<n]"
  using assms by (simp add: makelist_filter filter_upt_zero bit_0)


lemma f_univariate_ok:
  assumes "dfnum \<noteq> 0" and "dfden \<noteq> 0"
  shows "f_univariate fprob SS SSw dfnum dfden =
     Inr \<lparr>r_SS = SS, r_dfnum = dfnum, r_MS = SS / real_of_int dfnum,
          r_F = (if SSw / real_of_int dfden = 0 then 0
                 else (SS / real_of_int dfnum) / (SSw / real_of_int dfden)),
          r_prob = (if (if SSw / real_of_int dfden = 0 then 0
                        else (SS / real_of_int dfnum) / (SSw / real_of_int dfden)) \<ge> 0
                    then fprob (real_of_int dfnum) (real_of_int dfden)
                      (if SSw / real_of_int dfden = 0 then 0
                       else (SS / real_of_int dfnum) / (SSw / real_of_int dfden))
                    else 1),
          r_SSw = SSw, r_dfden = real_of_int dfden, r_MSw = SSw / real_of_int dfden\<rparr>"
  using assms by (simp add: f_univariate_def output_rows_def py_div_def Let_def)

lemma anova_between_eq:
  assumes "Nlevels \<noteq> []" and "odd source"
  shows "anova_between fprob Nlevels W source SS SSw =
     f_univariate fprob SS SSw (spec_dfnum Nlevels source)
       (Nlevels ! 0 - spec_between_cells Nlevels W)"
proof -
  from BNs_ok [OF assms(1)] obtain bns
    where b: "BNs Nlevels W = Inr bns" "prod_list bns = spec_between_cells Nlevels W" by blast
  have n: "Nsubjects Nlevels = Inr (Nlevels ! 0)"
    using assms(1) getitem_nat [of 0 Nlevels] by (simp add: Nsubjects_def)
  have c: "makelist (source - 1) (Nfactors Nlevels + 1) = filter (bit source) [1..<length Nlevels]"
    using source_cols_between [OF assms(2)] Nfactors_Suc [OF assms(1)] by simp
  have t: "take_levels Nlevels (filter (bit source) [1..<length Nlevels])
      = Inr (map (\<lambda>c. Nlevels ! c) (filter (bit source) [1..<length Nlevels]))"
    by (rule take_levels_ok) simp
  show ?thesis
    unfolding anova_between_def n b c t bind_err_Inr Let_def
    by (simp add: b spec_dfnum_def comp_def)
qed

lemma anova_within_eq:
  assumes "Nlevels \<noteq> []" and "odd source"
  shows "anova_within fprob Nlevels W source det_ef det_er =
     f_univariate fprob (det_er - det_ef) det_ef (spec_dfnum Nlevels source)
       (Nlevels ! 0 - spec_between_cells Nlevels W - spec_dfnum Nlevels source + 1)"
proof -
  from BNs_ok [OF assms(1)] obtain bns
    where b: "BNs Nlevels W = Inr bns" "prod_list bns = spec_between_cells Nlevels W" by blast
  have n: "Nsubjects Nlevels = Inr (Nlevels ! 0)"
    using assms(1) getitem_nat [of 0 Nlevels] by (simp add: Nsubjects_def)
  have c: "makelist source (Nfactors Nlevels + 1) = 0 # filter (bit source) [1..<length Nlevels]"
    using source_cols_within [OF assms(2), of "length Nlevels"] Nfactors_Suc [OF assms(1)] assms(1)
    by simp
  have t: "take_levels Nlevels (0 # filter (bit source) [1..<length Nlevels])
      = Inr (map (\<lambda>c. Nlevels ! c) (0 # filter (bit source) [1..<length Nlevels]))"
    using assms(1) by (intro take_levels_ok) auto
  show ?thesis
    unfolding anova_within_def n b c t bind_err_Inr Let_def
    by (simp add: b spec_dfnum_def comp_def)
qed

text \<open>
  Claim C3. For a between-subjects source the numerator degrees of freedom are the
  product of \<open>levels - 1\<close> over the factors of the source and the denominator degrees
  of freedom are the number of subjects less the product of the numbers of levels of the
  between-subjects factors. For a source of within-subjects factors only the numerator is
  the same product over its factors, and the denominator is the number of subjects less
  the product for the between-subjects factors, less the numerator, plus one. In both
  cases, when neither number of degrees of freedom is zero, \<open>F\<close> is
  \<open>(SS / dfnum) / (SSw / dfden)\<close>, and \<open>0\<close> when the error mean square is \<open>0\<close>.
\<close>

theorem univariate_df_and_F:
  assumes "Nlevels \<noteq> []" and "source \<in> set (sources (Nfactors Nlevels))"
  shows
    "(source_kind W source = PureBetween \<and> spec_dfnum Nlevels source \<noteq> 0 \<and>
      Nlevels ! 0 - spec_between_cells Nlevels W \<noteq> 0 \<longrightarrow>
       (\<exists>r. anova_between fprob Nlevels W source SS SSw = Inr r \<and>
          r_dfnum r = spec_dfnum Nlevels source \<and>
          r_dfden r = real_of_int (Nlevels ! 0 - spec_between_cells Nlevels W) \<and>
          r_F r = (if SSw / r_dfden r = 0 then 0
                   else (SS / real_of_int (r_dfnum r)) / (SSw / r_dfden r)))) \<and>
     (source_kind W source = PureWithin \<and> spec_dfnum Nlevels source \<noteq> 0 \<and>
      Nlevels ! 0 - spec_between_cells Nlevels W - spec_dfnum Nlevels source + 1 \<noteq> 0 \<longrightarrow>
       (\<exists>r. anova_within fprob Nlevels W source det_ef det_er = Inr r \<and>
          r_SS r = det_er - det_ef \<and> r_SSw r = det_ef \<and>
          r_dfnum r = spec_dfnum Nlevels source \<and>
          r_dfden r = real_of_int (Nlevels ! 0 - spec_between_cells Nlevels W
                        - spec_dfnum Nlevels source + 1) \<and>
          r_F r = (if r_SSw r / r_dfden r = 0 then 0
                   else (r_SS r / real_of_int (r_dfnum r)) / (r_SSw r / r_dfden r))))"
proof -
  from assms(2) have o: "odd source" by (simp add: sources_set)
  show ?thesis
  proof (intro conjI impI)
    assume "source_kind W source = PureBetween \<and> spec_dfnum Nlevels source \<noteq> 0 \<and>
      Nlevels ! 0 - spec_between_cells Nlevels W \<noteq> 0"
    then show "\<exists>r. anova_between fprob Nlevels W source SS SSw = Inr r \<and>
          r_dfnum r = spec_dfnum Nlevels source \<and>
          r_dfden r = real_of_int (Nlevels ! 0 - spec_between_cells Nlevels W) \<and>
          r_F r = (if SSw / r_dfden r = 0 then 0
                   else (SS / real_of_int (r_dfnum r)) / (SSw / r_dfden r))"
      by (simp add: anova_between_eq [OF assms(1) o] f_univariate_ok)
  next
    assume "source_kind W source = PureWithin \<and> spec_dfnum Nlevels source \<noteq> 0 \<and>
      Nlevels ! 0 - spec_between_cells Nlevels W - spec_dfnum Nlevels source + 1 \<noteq> 0"
    then show "\<exists>r. anova_within fprob Nlevels W source det_ef det_er = Inr r \<and>
          r_SS r = det_er - det_ef \<and> r_SSw r = det_ef \<and>
          r_dfnum r = spec_dfnum Nlevels source \<and>
          r_dfden r = real_of_int (Nlevels ! 0 - spec_between_cells Nlevels W
                        - spec_dfnum Nlevels source + 1) \<and>
          r_F r = (if r_SSw r / r_dfden r = 0 then 0
                   else (r_SS r / real_of_int (r_dfnum r)) / (r_SSw r / r_dfden r))"
      by (simp add: anova_within_eq [OF assms(1) o] f_univariate_ok)
  qed
qed


theorem univariate_df_and_F_witness:
  "(\<exists>r. anova_between (\<lambda>a b c. 0) [4, 2, 3] 4 3 6 4 = Inr r \<and>
        r_dfnum r = 1 \<and> r_dfden r = 2 \<and> r_F r = 3) \<and>
   (\<exists>r. anova_within (\<lambda>a b c. 0) [4, 2, 3] 4 5 2 6 = Inr r \<and>
        r_SS r = 4 \<and> r_dfnum r = 2 \<and> r_dfden r = 1 \<and> r_F r = 1)"
proof -
  have m: "sources (Nfactors [4, 2, 3]) = [3, 5, 7]" by code_simp
  have k: "source_kind 4 3 = PureBetween" "source_kind 4 5 = PureWithin" by code_simp+
  have d: "spec_dfnum [4, 2, 3] 3 = 1" "spec_dfnum [4, 2, 3] 5 = 2"
    "spec_between_cells [4, 2, 3] 4 = 2"
    by code_simp+
  from univariate_df_and_F [where Nlevels = "[4, 2, 3]" and source = 3 and W = 4
      and fprob = "\<lambda>a b c. 0" and SS = 6 and SSw = 4]
  have "\<exists>r. anova_between (\<lambda>a b c. 0) [4, 2, 3] 4 3 6 4 = Inr r \<and>
        r_dfnum r = 1 \<and> r_dfden r = 2 \<and> r_F r = 3"
    by (auto simp add: m k d)
  moreover
  from univariate_df_and_F [where Nlevels = "[4, 2, 3]" and source = 5 and W = 4
      and fprob = "\<lambda>a b c. 0" and det_ef = 2 and det_er = 6]
  have "\<exists>r. anova_within (\<lambda>a b c. 0) [4, 2, 3] 4 5 2 6 = Inr r \<and>
        r_SS r = 4 \<and> r_dfnum r = 2 \<and> r_dfden r = 1 \<and> r_F r = 1"
    by (auto simp add: m k d)
  ultimately show ?thesis by simp
qed

lemma sq_prod_4:
  fixes p q :: int
  assumes "(p * q)\<^sup>2 = 4"
  shows "p\<^sup>2 + q\<^sup>2 = 5"
proof -
  from assms have "(p * q)\<^sup>2 = 2\<^sup>2" by simp
  then have pq: "p * q = 2 \<or> p * q = - 2" by (simp only: power2_eq_iff)
  then have "p * q = 2 \<or> p * (- q) = 2" "p * q = 2 \<or> (- p) * q = 2" by auto
  then have "p dvd 2" "q dvd 2" by (metis dvd_triv_left, metis dvd_triv_right)
  then have "\<bar>p\<bar> \<le> 2" "\<bar>q\<bar> \<le> 2"
    using dvd_imp_le_int [of 2 p] dvd_imp_le_int [of 2 q] by simp_all
  then have "p \<in> {- 2, - 1, 0, 1, 2}" "q \<in> {- 2, - 1, 0, 1, 2}" by auto
  with pq show ?thesis by auto
qed

lemma rao_s_ok:
  fixes p k :: int
  defines "d_en \<equiv> real_of_int (p\<^sup>2 + (k - 1)\<^sup>2 - 5)"
  defines "s \<equiv> (if d_en = 0 then 1 else sqrt (real_of_int ((p * (k - 1))\<^sup>2 - 4) / d_en))"
  assumes "d_en = 0 \<or> 0 \<le> real_of_int ((p * (k - 1))\<^sup>2 - 4) / d_en"
  shows "rao_s p k = Inr s" and "s \<noteq> 0"
proof -
  show "rao_s p k = Inr s"
    using assms(3) by (auto simp add: rao_s_def s_def d_en_def py_div_def py_sqrt_def Let_def)
  show "s \<noteq> 0"
  proof (cases "d_en = 0")
    case True
    then show ?thesis by (simp add: s_def)
  next
    case False
    have "real_of_int ((p * (k - 1))\<^sup>2 - 4) \<noteq> 0"
    proof
      assume "real_of_int ((p * (k - 1))\<^sup>2 - 4) = 0"
      then have "(p * (k - 1))\<^sup>2 = 4" by linarith
      from sq_prod_4 [OF this] have "d_en = 0" by (simp add: d_en_def)
      with False show False ..
    qed
    with False show ?thesis by (simp add: s_def)
  qed
qed


lemma anova_mixed_eq:
  assumes "Nlevels \<noteq> []" and "odd source"
  shows "anova_mixed fprob Nlevels W source p det_ef det_er =
     bind_err (rao_s p (spec_between_cells Nlevels W)) (\<lambda>s.
       let dfden = (real_of_int (Nlevels ! 0) - 1
                     - real_of_int (p + spec_between_cells Nlevels W) / 2) * s
                   - real_of_int (spec_dfnum Nlevels source) / 2 + 1
       in bind_err
            (if det_er \<noteq> 0 then
               bind_err (py_div det_ef det_er) (\<lambda>lmbda.
               bind_err (py_div 1 s) (\<lambda>e.
               bind_err (py_pow lmbda e) (\<lambda>W.
               bind_err (py_div (1 - W) W) (\<lambda>q.
               bind_err (py_div dfden (real_of_int (spec_dfnum Nlevels source)))
                 (\<lambda>r. Inr (q * r))))))
             else Inr 0) (\<lambda>f.
       let prob = (if f \<ge> 0 then fprob (real_of_int (spec_dfnum Nlevels source)) dfden f else 1)
       in output_rows (det_er - det_ef) (spec_dfnum Nlevels source) f prob det_ef dfden))"
proof -
  from BNs_ok [OF assms(1)] obtain bns
    where b: "BNs Nlevels W = Inr bns" "prod_list bns = spec_between_cells Nlevels W" by blast
  have n: "Nsubjects Nlevels = Inr (Nlevels ! 0)"
    using assms(1) getitem_nat [of 0 Nlevels] by (simp add: Nsubjects_def)
  have c: "makelist source (Nfactors Nlevels + 1) = 0 # filter (bit source) [1..<length Nlevels]"
    using source_cols_within [OF assms(2), of "length Nlevels"] Nfactors_Suc [OF assms(1)] assms(1)
    by simp
  have t: "take_levels Nlevels (0 # filter (bit source) [1..<length Nlevels])
      = Inr (map (\<lambda>c. Nlevels ! c) (0 # filter (bit source) [1..<length Nlevels]))"
    using assms(1) by (intro take_levels_ok) auto
  have d: "prod_list (tl (map (\<lambda>n. n - 1)
      (map ((!) Nlevels) (0 # filter (bit source) [1..<length Nlevels]))))
      = spec_dfnum Nlevels source"
    by (simp add: spec_dfnum_def comp_def)
  show ?thesis
    unfolding anova_mixed_def n b c t bind_err_Inr Let_def d ..
qed

text \<open>
  Claim C2. For a mixed source with \<open>p\<close> D-variable columns, \<open>k\<close> the product of the
  numbers of levels of the between-subjects factors and
  \<open>m = Nsubjects - 1 - (p + k) / 2\<close>: \<open>s\<close> is the square root of
  \<open>((p (k - 1))\<^sup>2 - 4) / (p\<^sup>2 + (k - 1)\<^sup>2 - 5)\<close>, and \<open>1\<close> when that denominator is zero;
  \<open>dfden = m s - dfnum / 2 + 1\<close>; and with \<open>lmbda = det ef / det er\<close>,
  \<open>F = ((1 - lmbda powr (1 / s)) / lmbda powr (1 / s)) (dfden / dfnum)\<close>. The formulas
  are those of the code wherever they are defined: the radicand is not negative,
  \<open>det er\<close> is not zero, \<open>lmbda\<close> is positive, and \<open>dfnum\<close> and \<open>dfden\<close> are not
  zero.
\<close>

theorem mixed_rao_F:
  fixes p k dfnum :: int and m d_en s dfden lmbda det_ef det_er :: real
  assumes "Nlevels \<noteq> []" and "source \<in> set (sources (Nfactors Nlevels))"
    and "source_kind W source = MixedSource"
    and k: "k = spec_between_cells Nlevels W"
    and dfnum: "dfnum = spec_dfnum Nlevels source"
    and m: "m = real_of_int (Nlevels ! 0) - 1 - real_of_int (p + k) / 2"
    and d_en: "d_en = real_of_int (p\<^sup>2 + (k - 1)\<^sup>2 - 5)"
    and s: "s = (if d_en = 0 then 1 else sqrt (real_of_int ((p * (k - 1))\<^sup>2 - 4) / d_en))"
    and dfden: "dfden = m * s - real_of_int dfnum / 2 + 1"
    and lmbda: "lmbda = det_ef / det_er"
    and defined: "d_en = 0 \<or> 0 \<le> real_of_int ((p * (k - 1))\<^sup>2 - 4) / d_en"
      "det_er \<noteq> 0" "0 < lmbda" "dfnum \<noteq> 0" "dfden \<noteq> 0"
  shows "\<exists>r. anova_mixed fprob Nlevels W source p det_ef det_er = Inr r \<and>
     r_SS r = det_er - det_ef \<and> r_dfnum r = dfnum \<and> r_dfden r = dfden \<and>
     r_F r = ((1 - lmbda powr (1 / s)) / lmbda powr (1 / s)) * (dfden / real_of_int dfnum)"
proof -
  from assms(2) have o: "odd source" by (simp add: sources_set)
  have rs: "rao_s p k = Inr s" and s0: "s \<noteq> 0"
    using rao_s_ok [of p k] defined(1) unfolding s d_en by simp_all
  have pw: "py_pow lmbda (1 / s) = Inr (lmbda powr (1 / s))" and w0: "lmbda powr (1 / s) \<noteq> 0"
    using defined(3) by (simp_all add: py_pow_def)
  have f: "(if det_er \<noteq> 0 then
               bind_err (py_div det_ef det_er) (\<lambda>lmbda.
               bind_err (py_div 1 s) (\<lambda>e.
               bind_err (py_pow lmbda e) (\<lambda>W.
               bind_err (py_div (1 - W) W) (\<lambda>q.
               bind_err (py_div dfden (real_of_int dfnum))
                 (\<lambda>r. Inr (q * r))))))
             else Inr 0)
      = Inr (((1 - lmbda powr (1 / s)) / lmbda powr (1 / s)) * (dfden / real_of_int dfnum))"
    using defined(2,4) s0 w0 pw by (simp add: py_div_def lmbda)
  show ?thesis
    unfolding anova_mixed_eq [OF assms(1) o] k [symmetric] dfnum [symmetric] rs bind_err_Inr
      m [symmetric] Let_def dfden [symmetric] f
    using defined(4,5) by (simp add: output_rows_def py_div_def)
qed

theorem mixed_rao_F_witness:
  "\<exists>r. anova_mixed (\<lambda>a b c. 0) [4, 2, 2] 4 7 1 1 2 = Inr r \<and>
     r_SS r = 1 \<and> r_dfnum r = 1 \<and> r_dfden r = 2 \<and> r_F r = 2"
proof -
  have a: "sources (Nfactors [4, 2, 2]) = [3, 5, 7]" by code_simp
  have b: "source_kind 4 7 = MixedSource" by code_simp
  have c: "spec_between_cells [4, 2, 2] 4 = 2" "spec_dfnum [4, 2, 2] 7 = 1" by code_simp+
  from mixed_rao_F [where Nlevels = "[4, 2, 2]" and source = 7 and W = 4 and p = 1
      and k = 2 and dfnum = 1 and m = "3 / 2" and d_en = "- 3" and s = 1 and dfden = 2
      and lmbda = "1 / 2" and det_ef = 1 and det_er = 2 and fprob = "\<lambda>a b c. 0"]
  show ?thesis by (simp add: a b c)
qed

subsection \<open>The errors of the full and of the restricted model\<close>

lemma map_index: "map f xs = map (\<lambda>i. f (xs ! i)) [0..<length xs]"
  by (rule nth_equalityI) simp_all

lemma transpose_py_mat:
  "transpose_py workd = mat (length (hd workd)) (length workd) (\<lambda>v s. workd ! s ! v)"
  unfolding transpose_py_def mat_def
  by (rule map_cong [OF refl]) (rule map_index)

lemma compress_mul:
  assumes "length row = n" and "length msk = n" and "set msk \<subseteq> {0, 1}"
  shows "compress msk (map2 (*) row msk) = map (\<lambda>s. row ! s) (filter (\<lambda>s. msk ! s \<noteq> 0) [0..<n])"
proof -
  have z: "zip msk (map2 (*) row msk) = map (\<lambda>s. (msk ! s, row ! s * msk ! s)) [0..<n]"
    using assms(1,2) by (intro nth_equalityI) simp_all
  have one: "\<And>s. s < n \<Longrightarrow> msk ! s \<noteq> 0 \<Longrightarrow> msk ! s = 1"
    using assms(2,3) nth_mem by fastforce
  have "compress msk (map2 (*) row msk)
      = map (\<lambda>s. row ! s * msk ! s) (filter (\<lambda>s. msk ! s \<noteq> 0) [0..<n])"
    by (simp add: compress_def z filter_map comp_def)
  also have "\<dots> = map (\<lambda>s. row ! s) (filter (\<lambda>s. msk ! s \<noteq> 0) [0..<n])"
    by (rule map_cong [OF refl]) (simp add: one)
  finally show ?thesis .
qed

lemma group_means_mat:
  assumes "length msk = n" and "set msk \<subseteq> {0, 1}" and "1 \<in> set msk"
  shows "group_means (mat p n T) msk =
     Inr (map (\<lambda>v. (\<Sum>s\<leftarrow>filter (\<lambda>s. msk ! s \<noteq> 0) [0..<n]. T v s)
                   / real (length (filter (\<lambda>s. msk ! s \<noteq> 0) [0..<n]))) [0..<p])"
proof -
  from assms(1,3) obtain s where "s < n" "msk ! s = 1" by (metis in_set_conv_nth)
  then have "s \<in> set (filter (\<lambda>s. msk ! s \<noteq> 0) [0..<n])" by simp
  then have ne: "length (filter (\<lambda>s. msk ! s \<noteq> 0) [0..<n]) \<noteq> 0" by (metis length_0_conv empty_iff empty_set)
  have "map_err (\<lambda>row. let kept = compress msk (map2 (*) row msk)
                   in py_div (sum_list kept) (real (length kept))) (mat p n T)
      = Inr (map (\<lambda>row. sum_list (map (\<lambda>s. row ! s) (filter (\<lambda>s. msk ! s \<noteq> 0) [0..<n]))
                   / real (length (filter (\<lambda>s. msk ! s \<noteq> 0) [0..<n]))) (mat p n T))"
  proof (rule map_err_Inr)
    fix row assume "row \<in> set (mat p n T)"
    then have "length row = n" by (auto simp add: mat_def)
    from compress_mul [OF this assms(1,2)] ne
    show "(let kept = compress msk (map2 (*) row msk)
           in py_div (sum_list kept) (real (length kept)))
        = Inr (sum_list (map (\<lambda>s. row ! s) (filter (\<lambda>s. msk ! s \<noteq> 0) [0..<n]))
                   / real (length (filter (\<lambda>s. msk ! s \<noteq> 0) [0..<n])))"
      by (simp add: py_div_def Let_def)
  qed
  also have "map (\<lambda>row. sum_list (map (\<lambda>s. row ! s) (filter (\<lambda>s. msk ! s \<noteq> 0) [0..<n]))
                   / real (length (filter (\<lambda>s. msk ! s \<noteq> 0) [0..<n]))) (mat p n T)
      = map (\<lambda>v. (\<Sum>s\<leftarrow>filter (\<lambda>s. msk ! s \<noteq> 0) [0..<n]. T v s)
                   / real (length (filter (\<lambda>s. msk ! s \<noteq> 0) [0..<n]))) [0..<p]"
  proof -
    have h: "\<And>v. map ((!) (map (T v) [0..<n])) (filter (\<lambda>s. msk ! s \<noteq> 0) [0..<n])
        = map (T v) (filter (\<lambda>s. msk ! s \<noteq> 0) [0..<n])"
      by (rule map_cong [OF refl]) simp
    show ?thesis by (simp add: mat_def comp_def h)
  qed
  finally show ?thesis by (simp add: group_means_def)
qed

lemma subtract_outer_mat:
  assumes "length msk = n"
  shows "subtract_outer (mat p n E) (map g [0..<p]) msk = mat p n (\<lambda>v s. E v s - g v * msk ! s)"
proof -
  have m: "msk = map (\<lambda>s. msk ! s) [0..<n]"
    using assms by (metis map_nth)
  have "\<And>v. map2 (\<lambda>e mk. e - g v * mk) (map (E v) [0..<n]) msk
      = map (\<lambda>s. E v s - g v * msk ! s) [0..<n]"
    by (subst m) (simp add: map2_map_map del: map_nth)
  then show ?thesis
    by (simp add: subtract_outer_def mat_def map2_map_map)
qed


lemma subtr_cellmeans_loop_mat:
  assumes "\<forall>msk\<in>set masks. length msk = n \<and> set msk \<subseteq> {0, 1} \<and> 1 \<in> set msk"
  shows "subtr_cellmeans_loop (mat p n T) (mat p n E) masks =
     Inr (mat p n (\<lambda>v s. E v s -
       (\<Sum>msk\<leftarrow>masks. (\<Sum>s\<leftarrow>filter (\<lambda>s. msk ! s \<noteq> 0) [0..<n]. T v s)
                   / real (length (filter (\<lambda>s. msk ! s \<noteq> 0) [0..<n])) * msk ! s)))"
  using assms
proof (induction masks arbitrary: E)
  case Nil
  show ?case by simp
next
  case (Cons msk masks)
  then have m: "length msk = n" "set msk \<subseteq> {0, 1}" "1 \<in> set msk"
    and rest: "\<forall>msk\<in>set masks. length msk = n \<and> set msk \<subseteq> {0, 1} \<and> 1 \<in> set msk"
    by simp_all
  show ?case
    unfolding subtr_cellmeans_loop.simps group_means_mat [OF m] bind_err_Inr
      subtract_outer_mat [OF m(1)] Cons.IH [OF rest]
    by (simp add: mat_def algebra_simps)
qed

lemma sum_list_nonneg_zero:
  fixes xs :: "real list"
  assumes "\<forall>x\<in>set xs. 0 \<le> x" and "sum_list xs = 0"
  shows "\<forall>x\<in>set xs. x = 0"
  using assms by (induction xs) (auto simp add: add_nonneg_eq_0_iff sum_list_nonneg)

lemma sum_over_cells:
  assumes "\<forall>msk\<in>set masks. length msk = n \<and> set msk \<subseteq> {0, 1}" and "s < n"
    and "(\<Sum>msk\<leftarrow>masks. msk ! s) = 1"
  shows "(\<Sum>msk\<leftarrow>masks. f msk * msk ! s) = f (spec_cell masks s)"
  using assms(1,3)
proof (induction masks)
  case Nil
  then show ?case by simp
next
  case (Cons msk masks)
  have v: "\<And>m. m \<in> set (msk # masks) \<Longrightarrow> m ! s = 0 \<or> m ! s = 1"
    using Cons.prems(1) assms(2) nth_mem by fastforce
  show ?case
  proof (cases "msk ! s = 0")
    case True
    with Cons show ?thesis by (simp add: spec_cell_def)
  next
    case False
    with v have one: "msk ! s = 1" by auto
    with Cons.prems(2) have "(\<Sum>m\<leftarrow>masks. m ! s) = 0" by simp
    moreover have "\<forall>x\<in>set (map (\<lambda>m. m ! s) masks). 0 \<le> x"
    proof
      fix x assume "x \<in> set (map (\<lambda>m. m ! s) masks)"
      then obtain m where "m \<in> set masks" "x = m ! s" by auto
      with v [of m] show "0 \<le> x" by auto
    qed
    ultimately have "\<forall>x\<in>set (map (\<lambda>m. m ! s) masks). x = 0"
      by (rule sum_list_nonneg_zero [rotated])
    then have "map (\<lambda>m. f m * m ! s) masks = map (\<lambda>m. 0) masks" by simp
    then have "(\<Sum>m\<leftarrow>masks. f m * m ! s) = 0" by (simp only: sum_list_0)
    with one show ?thesis by (simp add: spec_cell_def)
  qed
qed

lemma multivar_sscalc_mat: "multivar_sscalc (mat p n e) = spec_cross_products p n e"
proof -
  have d: "\<And>i j. dot (map (e i) [0..<n]) (map (e j) [0..<n]) = (\<Sum>s\<leftarrow>[0..<n]. e i s * e j s)"
    by (simp add: dot_def map2_map_map)
  have c: "\<And>i j. (\<Sum>s\<leftarrow>[0..<n]. e j s * e i s) = (\<Sum>s\<leftarrow>[0..<n]. e i s * e j s)"
    by (simp add: mult.commute)
  show ?thesis
    unfolding multivar_sscalc_def spec_cross_products_def Let_def
    by (simp add: mat_def d c cong: map_cong)
qed


lemma mat_cong: "(\<And>v s. v < p \<Longrightarrow> s < n \<Longrightarrow> f v s = g v s) \<Longrightarrow> mat p n f = mat p n g"
  by (simp add: mat_def)

lemma subtr_cellmeans_residuals:
  assumes "wf_design workd masks"
  shows "subtr_cellmeans workd masks =
     Inr (mat (length (hd workd)) (length workd) (spec_residual workd masks))"
proof -
  let ?p = "length (hd workd)" and ?n = "length workd"
  let ?T = "\<lambda>v s. workd ! s ! v"
  from assms have masks: "\<forall>msk\<in>set masks. length msk = ?n \<and> set msk \<subseteq> {0, 1} \<and> 1 \<in> set msk"
    and part: "\<forall>s<?n. (\<Sum>msk\<leftarrow>masks. msk ! s) = 1"
    by (simp_all add: wf_design_def)
  have e: "map (map (\<lambda>x. 1 * x)) (mat ?p ?n ?T) = mat ?p ?n ?T"
    by (simp add: mat_def)
  have "mat ?p ?n (\<lambda>v s. ?T v s -
       (\<Sum>msk\<leftarrow>masks. (\<Sum>s\<leftarrow>filter (\<lambda>s. msk ! s \<noteq> 0) [0..<?n]. ?T v s)
                   / real (length (filter (\<lambda>s. msk ! s \<noteq> 0) [0..<?n])) * msk ! s))
      = mat ?p ?n (spec_residual workd masks)"
  proof (rule mat_cong)
    fix v s assume "s < ?n"
    with part have "(\<Sum>msk\<leftarrow>masks. msk ! s) = 1" by simp
    from sum_over_cells [of masks ?n s "\<lambda>msk. spec_cell_mean workd msk v", OF _ \<open>s < ?n\<close> this] masks
    show "?T v s - (\<Sum>msk\<leftarrow>masks. (\<Sum>s\<leftarrow>filter (\<lambda>s. msk ! s \<noteq> 0) [0..<?n]. ?T v s)
                   / real (length (filter (\<lambda>s. msk ! s \<noteq> 0) [0..<?n])) * msk ! s)
        = spec_residual workd masks v s"
      by (simp add: spec_residual_def spec_cell_mean_def)
  qed
  then show ?thesis
    unfolding subtr_cellmeans_def Let_def transpose_py_mat e
      subtr_cellmeans_loop_mat [OF masks] by simp
qed

lemma d_full_model_spec:
  assumes "wf_design workd masks"
  shows "d_full_model workd masks =
     Inr (spec_cross_products (length (hd workd)) (length workd) (spec_residual workd masks))"
  by (simp add: d_full_model_def subtr_cellmeans_residuals [OF assms] multivar_sscalc_mat)

lemma d_restrict_mean_spec:
  assumes "wf_design workd masks"
  shows "d_restrict_mean workd masks =
     Inr (spec_cross_products (length (hd workd)) (length workd)
            (\<lambda>v s. spec_residual workd masks v s + spec_grand_mean workd v))"
proof -
  let ?p = "length (hd workd)" and ?n = "length workd"
  from assms have n0: "real ?n \<noteq> 0" by (simp add: wf_design_def)
  have g: "map_err (\<lambda>col. py_div (sum_list col) (real ?n)) (mat ?p ?n (\<lambda>v s. workd ! s ! v))
      = Inr (map (\<lambda>col. sum_list col / real ?n) (mat ?p ?n (\<lambda>v s. workd ! s ! v)))"
    using n0 by (intro map_err_Inr) (simp add: py_div_def)
  have g': "map (\<lambda>col. sum_list col / real ?n) (mat ?p ?n (\<lambda>v s. workd ! s ! v))
      = map (spec_grand_mean workd) [0..<?p]"
    by (simp add: mat_def spec_grand_mean_def comp_def)
  have a: "map2 (\<lambda>erow g. map (\<lambda>e. e + g) erow) (mat ?p ?n (spec_residual workd masks))
        (map (spec_grand_mean workd) [0..<?p])
      = mat ?p ?n (\<lambda>v s. spec_residual workd masks v s + spec_grand_mean workd v)"
    by (simp add: mat_def map2_map_map comp_def)
  show ?thesis
    unfolding d_restrict_mean_def subtr_cellmeans_residuals [OF assms] bind_err_Inr
      transpose_py_mat g g' a multivar_sscalc_mat ..
qed

subsection \<open>The opening of \<open>anova\<close>\<close>

lemma anova_start_never_returns: "anova_start data \<noteq> Inr r"
  by (simp add: anova_start_def bind_err_def py_invert_def Let_def split: sum.splits)

text \<open>
  Claim C4 says that numeric degeneracy never raises, and that data whose values are all
  equal gives \<open>SS = 0\<close>, \<open>F = 0\<close> and \<open>p = 1\<close> for every source without an
  exception. The design below has two subjects, each measured at the \<open>2 \<times> 3\<close>
  combinations of two factors, and all its values are equal. \<open>findwithin\<close> returns the
  list \<open>[1, 1]\<close> for it, and \<open>~Bwithins\<close> raises \<open>TypeError\<close> before the first
  source is reached.
\<close>

theorem identical_values_raise:
  "findwithin [[1, 1, 1, 5], [1, 1, 2, 5], [1, 1, 3, 5], [1, 2, 1, 5], [1, 2, 2, 5], [1, 2, 3, 5],
               [2, 1, 1, 5], [2, 1, 2, 5], [2, 1, 3, 5], [2, 2, 1, 5], [2, 2, 2, 5],
               [2, 2, 3, 5 :: int]] = Inr [1, 1] \<and>
   anova_start [[1, 1, 1, 5], [1, 1, 2, 5], [1, 1, 3, 5], [1, 2, 1, 5], [1, 2, 2, 5], [1, 2, 3, 5],
               [2, 1, 1, 5], [2, 1, 2, 5], [2, 1, 3, 5], [2, 2, 1, 5], [2, 2, 2, 5],
               [2, 2, 3, 5]] = Inl TypeError"
  by code_simp

end
